theory Spec2Isabelle
  imports Main "HOL-Library.Word"
begin

unbundle bit_operations_syntax

section \<open>Data model\<close>

text \<open>
  The repository has two variants of the license manager: \<^verbatim>\<open>src/index.ts\<close>, which
  keeps the license key in the store, and a file-backed variant, which encrypts the key
  into a license file and keeps the initialisation vector in the store. The definitions of
  the second variant carry the suffix \<open>_file\<close>.

  A JavaScript string is modelled by the bytes of its UTF-8 encoding, one \<open>char\<close> per
  byte; a \<^verbatim>\<open>Buffer\<close> is a list of bytes. Numbers are integers (timestamps are
  milliseconds, use counts and day counts are whole numbers).
\<close>

type_synonym byte = "8 word"

datatype CheckStatus = ValidLicense | InvalidLicense | OutdatedLicense | NotSet | UnableToCheck

datatype ErrorType =
  ServerUnavailable | ActivationError | MaxUseExceeded | LicenseRefunded | UnknownError

datatype GumroadError = GumroadError (error_type: ErrorType) (error_message: string)

text \<open>
  Modelled from the spec: the declarations of \<^verbatim>\<open>./types/gumroad\<close> (\<open>Purchase\<close>,
  \<open>GumroadResponse\<close>, \<open>GumroadSuccessResponse\<close>) are not among the sources. The
  spec gives the response as
  \<^verbatim>\<open>{success: bool, message?: string, purchase?: {refunded, chargebacked, uses, ...}}\<close>
  and the purchase as a snapshot of sale metadata (refunded flag, chargeback flag, use
  count, product id); the code reads \<open>success\<close>, \<open>message\<close>, \<open>uses\<close> and
  \<open>purchase\<close> of the response, and \<open>refunded\<close> and \<open>chargebacked\<close> of the purchase.
\<close>

record Purchase =
  refunded :: bool
  chargebacked :: bool
  purchase_uses :: int
  purchase_product_id :: string

record GumroadResponse =
  success :: bool
  message :: "string option"
  uses :: int
  purchase :: "Purchase option"

text \<open>Whatever a library call throws: the transport, the cipher, the file system.\<close>

datatype exn =
  FetchFailed string
  | InvalidKeyLength
  | InvalidIV
  | WrongFinalBlockLength
  | BadDecrypt
  | WriteFailed string
  | ReadFailed string
  | UndefinedValue string

text \<open>
  \<open>GumroadLicenseOptions\<close>. An absent option is \<open>None\<close>; an absent options object
  (\<^verbatim>\<open>options?\<close> in \<^verbatim>\<open>src/index.ts\<close>) is the record with every optional field
  \<open>None\<close>. \<open>licenseFilePath\<close> is read by the file-backed variant only.
\<close>

record GumroadLicenseOptions =
  maxUses :: "int option"
  maxDaysBetweenChecks :: "int option"
  gumroadApiUrl :: "string option"
  disableEncryption :: "bool option"
  timeout :: "int option"
  rejectUnauthorized :: "bool option"
  licenseFilePath :: string

text \<open>
  The object under \<^verbatim>\<open>license.purchase\<close>: the purchase of a verification, or the empty
  object \<^verbatim>\<open>{}\<close> that the schema of the store declares as the default of that property.
\<close>

datatype purchase_object = EmptyObject | PurchaseObject Purchase

text \<open>
  The value under a path of the store. The schema of the store fixes the type of every
  property of \<open>license\<close>, so the typed reads below (\<^verbatim>\<open>get(...) as string\<close>) return
  the value when it has that type.
\<close>

datatype jsval = JString string | JNumber int | JBoolean bool | JPurchase purchase_object

type_synonym store = "string \<rightharpoonup> jsval"

text \<open>The body of one verification request.\<close>

record request =
  url :: string
  product_id :: string
  license_key :: string
  increment_uses_count :: bool

text \<open>
  The injected collaborators and the sources of nondeterminism: the device identity, the
  hash and the block cipher of the platform, \<^verbatim>\<open>path.join\<close>, the clock (the value of
  the \<open>n\<close>-th call of \<^verbatim>\<open>Date.now()\<close>), the licensing service behind the transport
  (its answer to a request, given the requests made before: \<open>Inl\<close> when the call throws),
  the random generator (the bytes of the \<open>n\<close>-th call of \<^verbatim>\<open>randomBytes(16)\<close>), and
  the paths that \<^verbatim>\<open>writeFileSync\<close> can write.
\<close>

record env =
  machineIdSync :: string
  sha256_base64 :: "string \<Rightarrow> string"
  aes_encrypt_block :: "byte list \<Rightarrow> byte list \<Rightarrow> byte list"
  aes_decrypt_block :: "byte list \<Rightarrow> byte list \<Rightarrow> byte list"
  path_join :: "string \<Rightarrow> string \<Rightarrow> string"
  clock :: "nat \<Rightarrow> int"
  server :: "request list \<Rightarrow> request \<Rightarrow> exn + GumroadResponse"
  randomBytes16 :: "nat \<Rightarrow> byte list"
  can_write :: "string \<Rightarrow> bool"

text \<open>
  Everything the operations change: the persisted store, the files, the requests sent so
  far, the number of clock reads and random draws, and the process-wide TLS flag
  \<^verbatim>\<open>https.globalAgent.options.rejectUnauthorized\<close>.
\<close>

record world =
  store :: store
  files :: "string \<rightharpoonup> byte list"
  requests :: "request list"
  ticks :: nat
  draws :: nat
  tls_rejectUnauthorized :: bool

datatype CheckResult =
  CheckValid GumroadResponse
  | CheckInvalid GumroadError
  | CheckUnable exn

fun status_of :: "CheckResult \<Rightarrow> CheckStatus" where
  "status_of (CheckValid r) = ValidLicense"
| "status_of (CheckInvalid e) = InvalidLicense"
| "status_of (CheckUnable e) = UnableToCheck"

text \<open>
  The result of \<open>addLicense\<close>. On failure the error is a \<open>GumroadError\<close> or, when
  the verification could not be made, the value that the transport threw.
\<close>

datatype add_error = Classified GumroadError | Thrown exn

datatype AddResult = AddSuccess GumroadResponse | AddFailure add_error

text \<open>
  The result of \<open>checkCurrentLicense\<close>: a status, with the purchase object when valid.
\<close>

datatype LicenseCheck = LicenseValid purchase_object | LicenseStatus CheckStatus

section \<open>The store and the clock\<close>

definition API_URL :: string where
  "API_URL = ''https://api.gumroad.com/v2/licenses/verify''"

text \<open>
  The store validates its content against the schema at every write, and the validation
  fills in the defaults that the schema declares. The schema of both variants declares one
  default below \<open>license\<close>: \<^verbatim>\<open>purchase: { type: "object", default: {} }\<close>. So a
  write, and a delete as well, leave \<^verbatim>\<open>{}\<close> under \<^verbatim>\<open>license.purchase\<close> when nothing
  is there.
\<close>

definition schema_defaults :: "store \<Rightarrow> store" where
  "schema_defaults s =
     (case s ''license.purchase'' of
        None \<Rightarrow> s(''license.purchase'' \<mapsto> JPurchase EmptyObject)
      | Some v \<Rightarrow> s)"

definition store_set :: "string \<Rightarrow> jsval \<Rightarrow> world \<Rightarrow> world" where
  "store_set p v w = w\<lparr>store := schema_defaults ((store w)(p \<mapsto> v))\<rparr>"

definition store_delete :: "string \<Rightarrow> world \<Rightarrow> world" where
  "store_delete p w = w\<lparr>store := schema_defaults ((store w)(p := None))\<rparr>"

definition get_string :: "world \<Rightarrow> string \<Rightarrow> string option" where
  "get_string w p = (case store w p of Some (JString s) \<Rightarrow> Some s | _ \<Rightarrow> None)"

definition get_number :: "world \<Rightarrow> string \<Rightarrow> int option" where
  "get_number w p = (case store w p of Some (JNumber n) \<Rightarrow> Some n | _ \<Rightarrow> None)"

definition get_purchase :: "world \<Rightarrow> string \<Rightarrow> purchase_object option" where
  "get_purchase w p = (case store w p of Some (JPurchase x) \<Rightarrow> Some x | _ \<Rightarrow> None)"

text \<open>
  JavaScript truthiness of an optional string, and the string behind a value that was
  found truthy.
\<close>

fun truthy_string :: "string option \<Rightarrow> bool" where
  "truthy_string None = False"
| "truthy_string (Some s) = (s \<noteq> [])"

fun string_value :: "string option \<Rightarrow> string" where
  "string_value None = []"
| "string_value (Some s) = s"

definition Date_now :: "env \<Rightarrow> world \<Rightarrow> int \<times> world" where
  "Date_now e w = (clock e (ticks w), w\<lparr>ticks := Suc (ticks w)\<rparr>)"

text \<open>
  The defaults of the store: those of the \<^verbatim>\<open>defaults\<close> option, with the default of the
  schema for \<^verbatim>\<open>license.purchase\<close>. In \<^verbatim>\<open>src/index.ts\<close> the default of
  \<open>license.encryptionKey\<close> is the product id followed by the machine id unless
  encryption is disabled; the file-backed variant leaves it undefined and has the default
  \<open>license.filePath = ""\<close>.
\<close>

definition store_defaults :: "GumroadLicenseOptions \<Rightarrow> env \<Rightarrow> string \<Rightarrow> store" where
  "store_defaults options e productId =
     (let d = [''license.fileName'' \<mapsto> JString ''license'',
               ''license.fileExtension'' \<mapsto> JString ''key'',
               ''license.clearInvalidConfig'' \<mapsto> JBoolean True,
               ''license.purchase'' \<mapsto> JPurchase EmptyObject]
      in if disableEncryption options = None \<or> disableEncryption options = Some False
         then d(''license.encryptionKey'' \<mapsto> JString (productId @ machineIdSync e))
         else d)"

definition store_defaults_file :: store where
  "store_defaults_file =
     [''license.fileName'' \<mapsto> JString ''license'',
      ''license.fileExtension'' \<mapsto> JString ''key'',
      ''license.filePath'' \<mapsto> JString [],
      ''license.clearInvalidConfig'' \<mapsto> JBoolean True,
      ''license.purchase'' \<mapsto> JPurchase EmptyObject]"

section \<open>Remote verification\<close>

text \<open>
  \<^verbatim>\<open>String.prototype.trim\<close> removes the white space and the line terminators of
  ECMAScript from both ends. On the UTF-8 bytes these are six characters of one byte, the
  no-break space U+00A0 (two bytes), and in three bytes U+1680, U+2000 to U+200A, U+2028,
  U+2029, U+202F, U+205F, U+3000 and U+FEFF.
\<close>

definition is_space :: "char \<Rightarrow> bool" where
  "is_space c = (c \<in> set [CHR '' '', CHR 0x09, CHR 0x0A, CHR 0x0B, CHR 0x0C, CHR 0x0D])"

definition is_space2 :: "char \<Rightarrow> char \<Rightarrow> bool" where
  "is_space2 a b = (a = CHR 0xC2 \<and> b = CHR 0xA0)"

definition is_space3 :: "char \<Rightarrow> char \<Rightarrow> char \<Rightarrow> bool" where
  "is_space3 a b c =
     ((a = CHR 0xE1 \<and> b = CHR 0x9A \<and> c = CHR 0x80)
      \<or> (a = CHR 0xE2 \<and> b = CHR 0x80
          \<and> ((0x80 \<le> (of_char c :: nat) \<and> (of_char c :: nat) \<le> 0x8A)
             \<or> c = CHR 0xA8 \<or> c = CHR 0xA9 \<or> c = CHR 0xAF))
      \<or> (a = CHR 0xE2 \<and> b = CHR 0x81 \<and> c = CHR 0x9F)
      \<or> (a = CHR 0xE3 \<and> b = CHR 0x80 \<and> c = CHR 0x80)
      \<or> (a = CHR 0xEF \<and> b = CHR 0xBB \<and> c = CHR 0xBF))"

fun trim_start :: "string \<Rightarrow> string" where
  "trim_start (a # b # c # s) =
     (if is_space a then trim_start (b # c # s)
      else if is_space2 a b then trim_start (c # s)
      else if is_space3 a b c then trim_start s
      else a # b # c # s)"
| "trim_start [a, b] =
     (if is_space a then trim_start [b]
      else if is_space2 a b then []
      else [a, b])"
| "trim_start [a] = (if is_space a then [] else [a])"
| "trim_start [] = []"

text \<open>The same from the end, on the reversed string.\<close>

fun trim_reversed :: "string \<Rightarrow> string" where
  "trim_reversed (c # b # a # s) =
     (if is_space c then trim_reversed (b # a # s)
      else if is_space2 b c then trim_reversed (a # s)
      else if is_space3 a b c then trim_reversed s
      else c # b # a # s)"
| "trim_reversed [b, a] =
     (if is_space b then trim_reversed [a]
      else if is_space2 a b then []
      else [b, a])"
| "trim_reversed [a] = (if is_space a then [] else [a])"
| "trim_reversed [] = []"

definition trim :: "string \<Rightarrow> string" where
  "trim s = rev (trim_reversed (rev (trim_start s)))"

definition post :: "env \<Rightarrow> request \<Rightarrow> world \<Rightarrow> (exn + GumroadResponse) \<times> world" where
  "post e rq w = (server e (requests w) rq, w\<lparr>requests := requests w @ [rq]\<rparr>)"

definition relax_tls :: "GumroadLicenseOptions \<Rightarrow> world \<Rightarrow> world" where
  "relax_tls options w =
     (if rejectUnauthorized options = Some False
      then w\<lparr>tls_rejectUnauthorized := False\<rparr> else w)"

text \<open>
  What both variants do with the transport's result: a thrown value is
  \<open>UnableToCheck\<close>, \<^verbatim>\<open>!result.success\<close> is an \<open>ActivationError\<close> with the
  message of the service or a default, and a purchase that is absent, refunded or charged
  back is \<open>LicenseRefunded\<close>.
\<close>

definition activation_message :: "GumroadResponse \<Rightarrow> string" where
  "activation_message result =
     (case message result of
        None \<Rightarrow> ''License check failed without an error message.''
      | Some m \<Rightarrow> if m = [] then ''License check failed without an error message.'' else m)"

definition refund_message :: string where
  "refund_message = ''Your purchase has been refunded, so your license is no longer valid.''"

definition no_entitlement :: "GumroadResponse \<Rightarrow> bool" where
  "no_entitlement result =
     (case purchase result of None \<Rightarrow> True | Some p \<Rightarrow> refunded p \<or> chargebacked p)"

definition check_result :: "exn + GumroadResponse \<Rightarrow> CheckResult" where
  "check_result t =
     (case t of
        Inl ex \<Rightarrow> CheckUnable ex
      | Inr result \<Rightarrow>
          if \<not> success result then
            CheckInvalid (GumroadError ActivationError (activation_message result))
          else if no_entitlement result then
            CheckInvalid (GumroadError LicenseRefunded refund_message)
          else CheckValid result)"

text \<open>
  The request of \<^verbatim>\<open>src/index.ts\<close> goes to the configured URL with the key trimmed;
  the file-backed variant posts the key as it is to the default URL.
\<close>

definition verify_request :: "GumroadLicenseOptions \<Rightarrow> string \<Rightarrow> string \<Rightarrow> bool \<Rightarrow> request" where
  "verify_request options productId licenseKey increaseUseCount =
     \<lparr>url = (case gumroadApiUrl options of None \<Rightarrow> API_URL | Some u \<Rightarrow> u),
      product_id = productId,
      license_key = trim licenseKey,
      increment_uses_count = increaseUseCount\<rparr>"

definition verify_request_file :: "string \<Rightarrow> string \<Rightarrow> bool \<Rightarrow> request" where
  "verify_request_file productId licenseKey increaseUseCount =
     \<lparr>url = API_URL,
      product_id = productId,
      license_key = licenseKey,
      increment_uses_count = increaseUseCount\<rparr>"

definition validateLicenseCode ::
  "GumroadLicenseOptions \<Rightarrow> env \<Rightarrow> string \<Rightarrow> string \<Rightarrow> bool \<Rightarrow> world \<Rightarrow> CheckResult \<times> world"
where
  "validateLicenseCode options e productId licenseKey increaseUseCount w =
     (let w1 = relax_tls options w;
          (t, w2) = post e (verify_request options productId licenseKey increaseUseCount) w1
      in (check_result t, w2))"

definition validateLicenseCode_file ::
  "GumroadLicenseOptions \<Rightarrow> env \<Rightarrow> string \<Rightarrow> string \<Rightarrow> bool \<Rightarrow> world \<Rightarrow> CheckResult \<times> world"
where
  "validateLicenseCode_file options e productId licenseKey increaseUseCount w =
     (let w1 = relax_tls options w;
          (t, w2) = post e (verify_request_file productId licenseKey increaseUseCount) w1
      in (check_result t, w2))"

section \<open>Activation and recheck, \<^verbatim>\<open>src/index.ts\<close>\<close>

text \<open>A whole number as JavaScript prints it in a template string.\<close>

function decimal :: "nat \<Rightarrow> string" where
  "decimal n =
     (if n < 10 then [char_of (48 + n)]
      else decimal (n div 10) @ [char_of (48 + n mod 10)])"
  by pat_completeness auto
termination
  by (relation "measure id") auto

declare decimal.simps [simp del]

definition number_string :: "int \<Rightarrow> string" where
  "number_string i = (if i < 0 then CHR ''-'' # decimal (nat (- i)) else decimal (nat i))"

definition limit_reached :: "int \<Rightarrow> GumroadError" where
  "limit_reached m =
     GumroadError MaxUseExceeded
       (''You have reached the limit of '' @ number_string m @ '' activations.'')"

text \<open>
  \<open>addLicense\<close> from the incrementing verification on: what the function does after
  the \<open>maxUses\<close> pre-check.
\<close>

definition addLicense_increment ::
  "GumroadLicenseOptions \<Rightarrow> env \<Rightarrow> string \<Rightarrow> string \<Rightarrow> world \<Rightarrow> AddResult \<times> world"
where
  "addLicense_increment options e productId licenseKey w =
     (let (result, w1) = validateLicenseCode options e productId licenseKey True w
      in case result of
           CheckUnable ex \<Rightarrow> (AddFailure (Thrown ex), w1)
         | CheckInvalid err \<Rightarrow> (AddFailure (Classified err), w1)
         | CheckValid r \<Rightarrow>
             (let w2 = store_set ''license.key'' (JString licenseKey) w1;
                  (t1, w3) = Date_now e w2;
                  w4 = store_set ''license.lastCheckAttempt'' (JNumber t1) w3;
                  (t2, w5) = Date_now e w4;
                  w6 = store_set ''license.lastCheckSuccess'' (JNumber t2) w5
              in (AddSuccess r, w6)))"

definition addLicense ::
  "GumroadLicenseOptions \<Rightarrow> env \<Rightarrow> string \<Rightarrow> string \<Rightarrow> world \<Rightarrow> AddResult \<times> world"
where
  "addLicense options e productId licenseKey w =
     (case maxUses options of
        None \<Rightarrow> addLicense_increment options e productId licenseKey w
      | Some m \<Rightarrow>
          (let (result, w1) = validateLicenseCode options e productId licenseKey False w
           in case result of
                CheckValid r \<Rightarrow>
                  if uses r \<ge> m then (AddFailure (Classified (limit_reached m)), w1)
                  else addLicense_increment options e productId licenseKey w1
              | _ \<Rightarrow> addLicense_increment options e productId licenseKey w1))"

text \<open>
  The \<^verbatim>\<open>switch (result.status)\<close> of \<open>checkCurrentLicense\<close>, the same in both
  variants. The grace period reads the store under the path \<^verbatim>\<open>lastCheckSuccess\<close>;
  \<^verbatim>\<open>Date.now()\<close> is read only when that value is truthy. Storing an undefined
  purchase is refused by the store. An object is truthy, the empty one too.
\<close>

definition cached_license :: "world \<Rightarrow> LicenseCheck" where
  "cached_license w =
     (case get_purchase w ''license.purchase'' of
        Some storedPurchase \<Rightarrow> LicenseValid storedPurchase
      | None \<Rightarrow> LicenseStatus InvalidLicense)"

definition on_check_result ::
  "GumroadLicenseOptions \<Rightarrow> env \<Rightarrow> CheckResult \<Rightarrow> world \<Rightarrow> (exn + LicenseCheck) \<times> world"
where
  "on_check_result options e result w =
     (case result of
        CheckValid r \<Rightarrow>
          (let (t, w1) = Date_now e w;
               w2 = store_set ''license.lastCheckSuccess'' (JNumber t) w1
           in case purchase r of
                None \<Rightarrow> (Inl (UndefinedValue ''license.purchase''), w2)
              | Some p \<Rightarrow>
                  (Inr (LicenseValid (PurchaseObject p)),
                   store_set ''license.purchase'' (JPurchase (PurchaseObject p)) w2))
      | CheckUnable ex \<Rightarrow>
          (let lastCheckSuccess = get_number w ''lastCheckSuccess''
           in case maxDaysBetweenChecks options of
                None \<Rightarrow> (Inr (cached_license w), w)
              | Some d \<Rightarrow>
                  if d = 0 then (Inr (cached_license w), w)
                  else
                    (case lastCheckSuccess of
                       None \<Rightarrow> (Inr (LicenseStatus OutdatedLicense), w)
                     | Some l \<Rightarrow>
                         if l = 0 then (Inr (LicenseStatus OutdatedLicense), w)
                         else
                           (let (t, w1) = Date_now e w
                            in if t - l > 86400000 * d
                               then (Inr (LicenseStatus OutdatedLicense), w1)
                               else (Inr (cached_license w1), w1))))
      | CheckInvalid err \<Rightarrow>
          (Inr (LicenseStatus InvalidLicense), store_delete ''license.purchase'' w))"

definition checkCurrentLicense ::
  "GumroadLicenseOptions \<Rightarrow> env \<Rightarrow> string \<Rightarrow> world \<Rightarrow> (exn + LicenseCheck) \<times> world"
where
  "checkCurrentLicense options e productId w =
     (let key = get_string w ''license.key''
      in if \<not> truthy_string key then (Inr (LicenseStatus NotSet), w)
         else
           (let (t, w1) = Date_now e w;
                w2 = store_set ''license.lastCheckAttempt'' (JNumber t) w1;
                (result, w3) =
                  validateLicenseCode options e productId (string_value key) False w2
            in on_check_result options e result w3))"

definition clearLicense :: "GumroadLicenseOptions \<Rightarrow> env \<Rightarrow> string \<Rightarrow> world \<Rightarrow> world" where
  "clearLicense options e productId w = w\<lparr>store := store_defaults options e productId\<rparr>"

section \<open>The encryption of the license file\<close>

text \<open>
  \<^verbatim>\<open>createCipheriv("aes-256-cbc", secret, iv)\<close>: cipher block chaining with PKCS#7
  padding over the block cipher of the platform, in blocks of 16 bytes. The constructor
  refuses an initialisation vector that is not 16 bytes and a key that is not 32 bytes;
  \<^verbatim>\<open>decipher.final()\<close> refuses a text that is empty or not a whole number of blocks,
  and a last block whose padding is wrong. The conversions between strings and buffers
  are byte for byte; Node's \<^verbatim>\<open>toString()\<close> replaces bytes that are not UTF-8, which
  only changes the text that a wrong vector or key decrypts to.
\<close>

definition bytes_of_string :: "string \<Rightarrow> byte list" where
  "bytes_of_string s = map (\<lambda>c. of_nat (of_char c)) s"

definition string_of_bytes :: "byte list \<Rightarrow> string" where
  "string_of_bytes bs = map (\<lambda>b. char_of (unat b)) bs"

definition xor_bytes :: "byte list \<Rightarrow> byte list \<Rightarrow> byte list" where
  "xor_bytes a b = map2 (XOR) a b"

function blocks16 :: "byte list \<Rightarrow> byte list list" where
  "blocks16 bs = (if bs = [] then [] else take 16 bs # blocks16 (drop 16 bs))"
  by pat_completeness auto
termination
  by (relation "measure length") auto

declare blocks16.simps [simp del]

definition pkcs7_pad :: "byte list \<Rightarrow> byte list" where
  "pkcs7_pad bs = (let n = 16 - length bs mod 16 in bs @ replicate n (of_nat n))"

definition pkcs7_unpad :: "byte list \<Rightarrow> exn + byte list" where
  "pkcs7_unpad bs =
     (if bs = [] then Inl BadDecrypt
      else
        (let n = unat (last bs)
         in if n = 0 \<or> 16 < n \<or> length bs < n
               \<or> drop (length bs - n) bs \<noteq> replicate n (last bs)
            then Inl BadDecrypt
            else Inr (take (length bs - n) bs)))"

fun cbc_encrypt_blocks ::
  "(byte list \<Rightarrow> byte list) \<Rightarrow> byte list \<Rightarrow> byte list list \<Rightarrow> byte list list"
where
  "cbc_encrypt_blocks E prev [] = []"
| "cbc_encrypt_blocks E prev (p # ps) =
     (let c = E (xor_bytes p prev) in c # cbc_encrypt_blocks E c ps)"

fun cbc_decrypt_blocks ::
  "(byte list \<Rightarrow> byte list) \<Rightarrow> byte list \<Rightarrow> byte list list \<Rightarrow> byte list list"
where
  "cbc_decrypt_blocks D prev [] = []"
| "cbc_decrypt_blocks D prev (c # cs) = xor_bytes (D c) prev # cbc_decrypt_blocks D c cs"

definition cipher_init :: "byte list \<Rightarrow> byte list \<Rightarrow> exn option" where
  "cipher_init key iv =
     (if length iv \<noteq> 16 then Some InvalidIV
      else if length key \<noteq> 32 then Some InvalidKeyLength
      else None)"

definition aes_256_cbc_encrypt :: "env \<Rightarrow> byte list \<Rightarrow> byte list \<Rightarrow> byte list \<Rightarrow> exn + byte list"
where
  "aes_256_cbc_encrypt e key iv plaintext =
     (case cipher_init key iv of
        Some ex \<Rightarrow> Inl ex
      | None \<Rightarrow>
          Inr (concat (cbc_encrypt_blocks (aes_encrypt_block e key) iv
                         (blocks16 (pkcs7_pad plaintext)))))"

definition aes_256_cbc_decrypt :: "env \<Rightarrow> byte list \<Rightarrow> byte list \<Rightarrow> byte list \<Rightarrow> exn + byte list"
where
  "aes_256_cbc_decrypt e key iv ciphertext =
     (case cipher_init key iv of
        Some ex \<Rightarrow> Inl ex
      | None \<Rightarrow>
          if ciphertext = [] \<or> length ciphertext mod 16 \<noteq> 0 then Inl WrongFinalBlockLength
          else pkcs7_unpad (concat (cbc_decrypt_blocks (aes_decrypt_block e key) iv
                                      (blocks16 ciphertext))))"

text \<open>
  The key of the cipher: the first 32 characters of the base64 digest of the product id
  followed by the machine id.
\<close>

definition secret :: "env \<Rightarrow> string \<Rightarrow> string" where
  "secret e productId = take 32 (sha256_base64 e (productId @ machineIdSync e))"

text \<open>
  \<^verbatim>\<open>iv.toString("hex")\<close> and \<^verbatim>\<open>Buffer.from(ivString, "hex")\<close>; the second stops at
  the first pair of characters that is not a pair of hexadecimal digits.
\<close>

definition hex_digit :: "nat \<Rightarrow> char" where
  "hex_digit n = (if n < 10 then char_of (48 + n) else char_of (87 + n))"

definition hex_value :: "char \<Rightarrow> nat option" where
  "hex_value c =
     (let n = (of_char c :: nat)
      in if 48 \<le> n \<and> n \<le> 57 then Some (n - 48)
         else if 97 \<le> n \<and> n \<le> 102 then Some (n - 87)
         else if 65 \<le> n \<and> n \<le> 70 then Some (n - 55)
         else None)"

definition to_hex :: "byte list \<Rightarrow> string" where
  "to_hex bs = concat (map (\<lambda>b. [hex_digit (unat b div 16), hex_digit (unat b mod 16)]) bs)"

fun from_hex :: "string \<Rightarrow> byte list" where
  "from_hex (a # b # rest) =
     (case (hex_value a, hex_value b) of
        (Some x, Some y) \<Rightarrow> of_nat (16 * x + y) # from_hex rest
      | _ \<Rightarrow> [])"
| "from_hex _ = []"

section \<open>Activation and recheck, the file-backed variant\<close>

definition string_or_undefined :: "string option \<Rightarrow> string" where
  "string_or_undefined v = (case v of Some s \<Rightarrow> s | None \<Rightarrow> ''undefined'')"

definition writeFileSync :: "env \<Rightarrow> string \<Rightarrow> byte list \<Rightarrow> world \<Rightarrow> exn + world" where
  "writeFileSync e path content w =
     (if can_write e path then Inr (w\<lparr>files := (files w)(path \<mapsto> content)\<rparr>)
      else Inl (WriteFailed path))"

definition addLicense_increment_file ::
  "GumroadLicenseOptions \<Rightarrow> env \<Rightarrow> string \<Rightarrow> string \<Rightarrow> world \<Rightarrow> (exn + AddResult) \<times> world"
where
  "addLicense_increment_file options e productId licenseKey w =
     (let (result, w1) = validateLicenseCode_file options e productId licenseKey True w
      in case result of
           CheckUnable ex \<Rightarrow> (Inr (AddFailure (Thrown ex)), w1)
         | CheckInvalid err \<Rightarrow> (Inr (AddFailure (Classified err)), w1)
         | CheckValid r \<Rightarrow>
             (let (t1, w2) = Date_now e w1;
                  w3 = store_set ''license.lastCheckAttempt'' (JNumber t1) w2;
                  (t2, w4) = Date_now e w3;
                  w5 = store_set ''license.lastCheckSuccess'' (JNumber t2) w4;
                  w6 = store_set ''license.key'' (JString licenseKey) w5;
                  licenseFile =
                    path_join e (licenseFilePath options)
                      (string_or_undefined (get_string w6 ''license.fileName'') @ ''.''
                       @ string_or_undefined (get_string w6 ''license.fileExtension''));
                  iv = randomBytes16 e (draws w6);
                  w7 = w6\<lparr>draws := Suc (draws w6)\<rparr>
              in case aes_256_cbc_encrypt e (bytes_of_string (secret e productId)) iv
                        (bytes_of_string licenseKey) of
                   Inl ex \<Rightarrow> (Inl ex, w7)
                 | Inr encryptedLicense \<Rightarrow>
                     (case writeFileSync e licenseFile encryptedLicense w7 of
                        Inl ex \<Rightarrow> (Inl ex, w7)
                      | Inr w8 \<Rightarrow>
                          (let w9 = store_set ''license.key'' (JString (to_hex iv)) w8;
                               w10 = store_set ''license.filePath'' (JString licenseFile) w9
                           in (Inr (AddSuccess r), w10)))))"

definition addLicense_file ::
  "GumroadLicenseOptions \<Rightarrow> env \<Rightarrow> string \<Rightarrow> string \<Rightarrow> world \<Rightarrow> (exn + AddResult) \<times> world"
where
  "addLicense_file options e productId licenseKey w =
     (case maxUses options of
        None \<Rightarrow> addLicense_increment_file options e productId licenseKey w
      | Some m \<Rightarrow>
          (let (result, w1) = validateLicenseCode_file options e productId licenseKey False w
           in case result of
                CheckValid r \<Rightarrow>
                  if uses r \<ge> m then (Inr (AddFailure (Classified (limit_reached m))), w1)
                  else addLicense_increment_file options e productId licenseKey w1
              | _ \<Rightarrow> addLicense_increment_file options e productId licenseKey w1))"

text \<open>The decryption of \<open>checkCurrentLicense\<close>, from the stored IV and the license file.\<close>

definition decrypt_license :: "env \<Rightarrow> string \<Rightarrow> string \<Rightarrow> byte list \<Rightarrow> exn + string" where
  "decrypt_license e productId ivString encryptedLicense =
     (case aes_256_cbc_decrypt e (bytes_of_string (secret e productId)) (from_hex ivString)
             encryptedLicense of
        Inl ex \<Rightarrow> Inl ex
      | Inr bs \<Rightarrow> Inr (string_of_bytes bs))"

definition existsSync :: "world \<Rightarrow> string \<Rightarrow> bool" where
  "existsSync w path = (files w path \<noteq> None)"

definition readFileSync :: "world \<Rightarrow> string \<Rightarrow> exn + byte list" where
  "readFileSync w path =
     (case files w path of Some content \<Rightarrow> Inr content | None \<Rightarrow> Inl (ReadFailed path))"

definition checkCurrentLicense_file ::
  "GumroadLicenseOptions \<Rightarrow> env \<Rightarrow> string \<Rightarrow> world \<Rightarrow> (exn + LicenseCheck) \<times> world"
where
  "checkCurrentLicense_file options e productId w =
     (let ivString = get_string w ''license.key'';
          filePath = get_string w ''license.filePath''
      in if \<not> truthy_string filePath \<or> \<not> existsSync w (string_value filePath)
            \<or> \<not> truthy_string ivString
         then (Inr (LicenseStatus NotSet), w)
         else
           (case readFileSync w (string_value filePath) of
              Inl ex \<Rightarrow> (Inl ex, w)
            | Inr encryptedLicense \<Rightarrow>
                (case decrypt_license e productId (string_value ivString) encryptedLicense of
                   Inl ex \<Rightarrow> (Inl ex, w)
                 | Inr licenseKey \<Rightarrow>
                     (let (t, w1) = Date_now e w;
                          w2 = store_set ''license.lastCheckAttempt'' (JNumber t) w1;
                          (result, w3) =
                            validateLicenseCode_file options e productId licenseKey False w2
                      in on_check_result options e result w3))))"

definition clearLicense_file :: "world \<Rightarrow> world" where
  "clearLicense_file w = w\<lparr>store := store_defaults_file\<rparr>"

section \<open>Vocabulary of the properties\<close>

text \<open>
  The world in which \<open>addLicense\<close> makes its incrementing verification: the given one,
  or the one after the pre-check when \<open>maxUses\<close> is configured. The pre-check lets the
  activation through unless it is valid with a use count at the limit.
\<close>

definition increment_world ::
  "GumroadLicenseOptions \<Rightarrow> env \<Rightarrow> string \<Rightarrow> string \<Rightarrow> world \<Rightarrow> world"
where
  "increment_world options e productId licenseKey w =
     (case maxUses options of
        None \<Rightarrow> w
      | Some m \<Rightarrow> snd (validateLicenseCode options e productId licenseKey False w))"

definition increment_world_file ::
  "GumroadLicenseOptions \<Rightarrow> env \<Rightarrow> string \<Rightarrow> string \<Rightarrow> world \<Rightarrow> world"
where
  "increment_world_file options e productId licenseKey w =
     (case maxUses options of
        None \<Rightarrow> w
      | Some m \<Rightarrow> snd (validateLicenseCode_file options e productId licenseKey False w))"

fun below_limit :: "int option \<Rightarrow> CheckResult \<Rightarrow> bool" where
  "below_limit (Some m) (CheckValid r) = (uses r < m)"
| "below_limit _ _ = True"

text \<open>
  The two orders of the timestamps of the store: the one the specification states, and
  the one in which a successful verification writes them.
\<close>

definition attempt_not_before_success :: "world \<Rightarrow> bool" where
  "attempt_not_before_success w =
     (case (get_number w ''license.lastCheckAttempt'', get_number w ''license.lastCheckSuccess'') of
        (Some a, Some s) \<Rightarrow> s \<le> a
      | _ \<Rightarrow> True)"

definition success_not_before_attempt :: "world \<Rightarrow> bool" where
  "success_not_before_attempt w =
     (case (get_number w ''license.lastCheckAttempt'', get_number w ''license.lastCheckSuccess'') of
        (Some a, Some s) \<Rightarrow> a \<le> s
      | _ \<Rightarrow> False)"

text \<open>The last recorded success is not ahead of the clock.\<close>

definition success_not_in_future :: "env \<Rightarrow> world \<Rightarrow> bool" where
  "success_not_in_future e w =
     (case get_number w ''license.lastCheckSuccess'' of
        Some s \<Rightarrow> s \<le> clock e (ticks w)
      | None \<Rightarrow> True)"

text \<open>The recheck after its guard: the attempt is stamped, then the key is verified.\<close>

definition stamped :: "env \<Rightarrow> world \<Rightarrow> world" where
  "stamped e w =
     store_set ''license.lastCheckAttempt'' (JNumber (clock e (ticks w)))
       (w\<lparr>ticks := Suc (ticks w)\<rparr>)"

text \<open>
  What the properties of the encryption assume of the platform: the block cipher maps
  blocks of 16 bytes to blocks of 16 bytes and its decryption undoes its encryption under
  a key of 32 bytes, the base64 digest has at least 32 characters, \<^verbatim>\<open>randomBytes(16)\<close>
  returns 16 bytes, and \<^verbatim>\<open>path.join\<close> never returns the empty path.
\<close>

definition platform_ok :: "env \<Rightarrow> bool" where
  "platform_ok e =
     ((\<forall>k b. length k = 32 \<and> length b = 16 \<longrightarrow>
          length (aes_encrypt_block e k b) = 16
          \<and> aes_decrypt_block e k (aes_encrypt_block e k b) = b)
      \<and> (\<forall>s. 32 \<le> length (sha256_base64 e s))
      \<and> (\<forall>n. length (randomBytes16 e n) = 16)
      \<and> (\<forall>d n. path_join e d n \<noteq> []))"

text \<open>The path of the license file, as \<open>addLicense\<close> computes it.\<close>

definition license_file :: "GumroadLicenseOptions \<Rightarrow> env \<Rightarrow> world \<Rightarrow> string" where
  "license_file options e w =
     path_join e (licenseFilePath options)
       (string_or_undefined (get_string w ''license.fileName'') @ ''.''
        @ string_or_undefined (get_string w ''license.fileExtension''))"

text \<open>
  The text that decryption under the initialisation vector \<open>iv'\<close> returns for a key
  encrypted under \<open>iv\<close>: the first block of the key with both vectors added, then the
  rest of the key.
\<close>

definition garbled :: "string \<Rightarrow> byte list \<Rightarrow> byte list \<Rightarrow> string" where
  "garbled K iv iv' =
     string_of_bytes (xor_bytes (xor_bytes (take 16 (bytes_of_string K)) iv) iv')
     @ drop 16 K"

section \<open>Example collaborators\<close>

text \<open>
  A small platform on which the operations can be run: a hash that pads its input to 44
  characters, a block cipher that adds the first half of the key to the block, a clock
  that advances by one millisecond at each reading, and a service that accepts every key.
\<close>

definition example_purchase :: Purchase where
  "example_purchase =
     \<lparr>refunded = False, chargebacked = False, purchase_uses = 0,
      purchase_product_id = ''prod''\<rparr>"

definition accepted :: "int \<Rightarrow> GumroadResponse" where
  "accepted n = \<lparr>success = True, message = None, uses = n, purchase = Some example_purchase\<rparr>"

definition rejected :: GumroadResponse where
  "rejected =
     \<lparr>success = False,
      message = Some ''That license does not exist for the provided product.'',
      uses = 0, purchase = None\<rparr>"

definition example_env :: env where
  "example_env =
     \<lparr>machineIdSync = ''machine'',
      sha256_base64 = (\<lambda>s. take 44 (s @ replicate 44 (CHR ''A''))),
      aes_encrypt_block = (\<lambda>k b. xor_bytes b (take 16 k)),
      aes_decrypt_block = (\<lambda>k b. xor_bytes b (take 16 k)),
      path_join = (\<lambda>d n. d @ ''/'' @ n),
      clock = (\<lambda>n. 1700000000000 + int n),
      server = (\<lambda>h rq. Inr (accepted 0)),
      randomBytes16 = (\<lambda>n. replicate 16 (of_nat n)),
      can_write = (\<lambda>p. True)\<rparr>"

definition no_options :: GumroadLicenseOptions where
  "no_options =
     \<lparr>maxUses = None, maxDaysBetweenChecks = None, gumroadApiUrl = None,
      disableEncryption = None, timeout = None, rejectUnauthorized = None,
      licenseFilePath = ''/licenses''\<rparr>"

definition refunded_response :: GumroadResponse where
  "refunded_response =
     \<lparr>success = True, message = None, uses = 1,
      purchase = Some (example_purchase\<lparr>refunded := True\<rparr>)\<rparr>"

definition offline :: "request list \<Rightarrow> request \<Rightarrow> exn + GumroadResponse" where
  "offline h rq = Inl (FetchFailed ''getaddrinfo ENOTFOUND api.gumroad.com'')"

text \<open>
  A service whose first answer is lost on the network, and a service that reports the
  purchase refunded at the first request and cannot be reached afterwards.
\<close>

definition first_call_fails :: "request list \<Rightarrow> request \<Rightarrow> exn + GumroadResponse" where
  "first_call_fails h rq =
     (if h = [] then Inl (FetchFailed ''socket hang up'') else Inr (accepted 0))"

definition refunded_then_offline :: "request list \<Rightarrow> request \<Rightarrow> exn + GumroadResponse" where
  "refunded_then_offline h rq = (if h = [] then Inr refunded_response else offline h rq)"

definition fresh_world :: "store \<Rightarrow> world" where
  "fresh_world s =
     \<lparr>store = s, files = Map.empty, requests = [], ticks = 0, draws = 0,
      tls_rejectUnauthorized = True\<rparr>"

text \<open>
  A store six days after its last successful check (the clock of the example platform
  starts at 1700000000000), with the purchase of that check.
\<close>

definition six_days_store :: store where
  "six_days_store =
     [''license.key'' \<mapsto> JString ''KEY'',
      ''license.lastCheckAttempt'' \<mapsto> JNumber (1700000000000 - 6 * 86400000),
      ''license.lastCheckSuccess'' \<mapsto> JNumber (1700000000000 - 6 * 86400000),
      ''license.purchase'' \<mapsto> JPurchase (PurchaseObject example_purchase)]"

text \<open>
  A key of three blocks, a service that knows that key only, the world after its
  activation on the example platform, the same world with another initialisation vector
  in the store, and a world whose license file is not a whole number of blocks.
\<close>

definition long_key :: string where
  "long_key = ''AAAAAAAA-BBBBBBBB-CCCCCCCC-DDDDDDDD''"

definition known_key_server :: "string \<Rightarrow> request list \<Rightarrow> request \<Rightarrow> exn + GumroadResponse" where
  "known_key_server K h rq = (if license_key rq = K then Inr (accepted 1) else Inr rejected)"

definition activated_world :: world where
  "activated_world =
     snd (addLicense_file no_options example_env ''prod'' long_key (fresh_world store_defaults_file))"

definition wrong_iv_world :: world where
  "wrong_iv_world =
     store_set ''license.key'' (JString (to_hex (replicate 16 255))) activated_world"

definition corrupt_world :: world where
  "corrupt_world =
     (fresh_world
        (store_defaults_file
           (''license.filePath'' \<mapsto> JString ''/licenses/license.key'',
            ''license.key'' \<mapsto> JString (to_hex (replicate 16 0)))))
     \<lparr>files := [''/licenses/license.key'' \<mapsto> [1, 2, 3, 4, 5]]\<rparr>"

section \<open>Remote verification: results\<close>

lemma relax_tls_fields [simp]:
  "store (relax_tls options w) = store w"
  "files (relax_tls options w) = files w"
  "requests (relax_tls options w) = requests w"
  "ticks (relax_tls options w) = ticks w"
  "draws (relax_tls options w) = draws w"
  by (simp_all add: relax_tls_def)

lemma validateLicenseCode_eq:
  "validateLicenseCode options e pid key inc w =
     (check_result (server e (requests w) (verify_request options pid key inc)),
      (relax_tls options w)\<lparr>requests := requests w @ [verify_request options pid key inc]\<rparr>)"
  by (simp add: validateLicenseCode_def post_def Let_def)

lemma validateLicenseCode_file_eq:
  "validateLicenseCode_file options e pid key inc w =
     (check_result (server e (requests w) (verify_request_file pid key inc)),
      (relax_tls options w)\<lparr>requests := requests w @ [verify_request_file pid key inc]\<rparr>)"
  by (simp add: validateLicenseCode_file_def post_def Let_def)

text \<open>
  C1, as amended. When the transport returns a response whose purchase is absent,
  refunded or charged back, the verification is \<open>InvalidLicense\<close> in both variants:
  with the error \<open>LicenseRefunded\<close> when the response's \<open>success\<close> flag is true (it
  is never \<open>ValidLicense\<close>), and with the error \<open>ActivationError\<close> when the flag is
  false, since \<^verbatim>\<open>!result.success\<close> is tested first.
\<close>

theorem validateLicenseCode_refund_check:
  "(server e (requests w) (verify_request options pid key inc) = Inr r \<and> no_entitlement r \<longrightarrow>
      fst (validateLicenseCode options e pid key inc w) =
        (if success r then CheckInvalid (GumroadError LicenseRefunded refund_message)
         else CheckInvalid (GumroadError ActivationError (activation_message r))))
   \<and> (server e (requests w) (verify_request_file pid key inc) = Inr r \<and> no_entitlement r \<longrightarrow>
      fst (validateLicenseCode_file options e pid key inc w) =
        (if success r then CheckInvalid (GumroadError LicenseRefunded refund_message)
         else CheckInvalid (GumroadError ActivationError (activation_message r))))"
  by (simp add: validateLicenseCode_eq validateLicenseCode_file_eq check_result_def)

theorem validateLicenseCode_refund_check_witness:
  "no_entitlement refunded_response \<and>
   fst (validateLicenseCode no_options (example_env\<lparr>server := \<lambda>h rq. Inr refunded_response\<rparr>)
          ''prod'' ''KEY'' False (fresh_world Map.empty)) =
     CheckInvalid (GumroadError LicenseRefunded refund_message) \<and>
   fst (validateLicenseCode_file no_options
          (example_env\<lparr>server := \<lambda>h rq. Inr refunded_response\<rparr>)
          ''prod'' ''KEY'' False (fresh_world Map.empty)) =
     CheckInvalid (GumroadError LicenseRefunded refund_message)"
  using validateLicenseCode_refund_check
    [of "example_env\<lparr>server := \<lambda>h rq. Inr refunded_response\<rparr>" "fresh_world Map.empty"
        no_options "''prod''" "''KEY''" False refunded_response]
  by (simp add: no_entitlement_def refunded_response_def example_purchase_def)

text \<open>
  C1, as stated, fails on a response without a purchase whose \<open>success\<close> flag is
  false, the answer of the service to an unknown key: the error is \<open>ActivationError\<close>.
\<close>

theorem rejected_is_activation_error:
  "no_entitlement rejected \<and>
   fst (validateLicenseCode no_options (example_env\<lparr>server := \<lambda>h rq. Inr rejected\<rparr>)
          ''prod'' ''KEY'' False (fresh_world Map.empty)) =
     CheckInvalid (GumroadError ActivationError
       ''That license does not exist for the provided product.'') \<and>
   fst (validateLicenseCode_file no_options (example_env\<lparr>server := \<lambda>h rq. Inr rejected\<rparr>)
          ''prod'' ''KEY'' False (fresh_world Map.empty)) =
     CheckInvalid (GumroadError ActivationError
       ''That license does not exist for the provided product.'')"
  by (simp add: validateLicenseCode_eq validateLicenseCode_file_eq check_result_def
      rejected_def example_env_def no_entitlement_def activation_message_def)

section \<open>Activation: results\<close>

lemma verify_request_maxUses [simp]:
  "verify_request (options\<lparr>maxUses := x\<rparr>) pid key inc = verify_request options pid key inc"
  by (simp add: verify_request_def)

lemma relax_tls_maxUses [simp]:
  "relax_tls (options\<lparr>maxUses := x\<rparr>) w = relax_tls options w"
  by (simp add: relax_tls_def)

lemma schema_defaults_other [simp]:
  "p \<noteq> ''license.purchase'' \<Longrightarrow> schema_defaults s p = s p"
  by (simp add: schema_defaults_def split: option.splits)

lemma schema_defaults_purchase:
  "schema_defaults s ''license.purchase'' =
     (case s ''license.purchase'' of None \<Rightarrow> Some (JPurchase EmptyObject) | Some v \<Rightarrow> Some v)"
  by (simp add: schema_defaults_def split: option.splits)

lemma store_set_fields [simp]:
  "store (store_set p v w) = schema_defaults ((store w)(p \<mapsto> v))"
  "files (store_set p v w) = files w"
  "requests (store_set p v w) = requests w"
  "ticks (store_set p v w) = ticks w"
  "draws (store_set p v w) = draws w"
  by (simp_all add: store_set_def)

lemma store_delete_fields [simp]:
  "store (store_delete p w) = schema_defaults ((store w)(p := None))"
  "files (store_delete p w) = files w"
  "requests (store_delete p w) = requests w"
  "ticks (store_delete p w) = ticks w"
  "draws (store_delete p w) = draws w"
  by (simp_all add: store_delete_def)

lemma addLicense_increment_eq:
  "addLicense_increment options e pid key w =
     (case fst (validateLicenseCode options e pid key True w) of
        CheckUnable ex \<Rightarrow> (AddFailure (Thrown ex), snd (validateLicenseCode options e pid key True w))
      | CheckInvalid err \<Rightarrow>
          (AddFailure (Classified err), snd (validateLicenseCode options e pid key True w))
      | CheckValid r \<Rightarrow>
          (AddSuccess r,
           store_set ''license.lastCheckSuccess'' (JNumber (clock e (Suc (ticks w))))
             (store_set ''license.lastCheckAttempt'' (JNumber (clock e (ticks w)))
               (store_set ''license.key'' (JString key)
                 (snd (validateLicenseCode options e pid key True w)))
              \<lparr>ticks := Suc (Suc (ticks w))\<rparr>)))"
  by (simp add: addLicense_increment_def Date_now_def Let_def validateLicenseCode_eq
      store_set_def split: CheckResult.splits prod.splits)

text \<open>
  C3. With \<open>maxUses\<close> configured, \<open>addLicense\<close> first verifies without
  incrementing. When that verification is valid and reports a use count at or above
  the limit, the call fails with \<open>MaxUseExceeded\<close>; the only request it has sent is
  the non-incrementing one, and nothing is stored. Both variants.
\<close>

theorem addLicense_limit_reached:
  assumes "maxUses options = Some m"
  shows
    "(fst (validateLicenseCode options e pid key False w) = CheckValid r \<and> m \<le> uses r \<longrightarrow>
        fst (addLicense options e pid key w) = AddFailure (Classified (limit_reached m))
        \<and> error_type (limit_reached m) = MaxUseExceeded
        \<and> requests (snd (addLicense options e pid key w)) =
            requests w @ [verify_request options pid key False]
        \<and> store (snd (addLicense options e pid key w)) = store w)
     \<and> (fst (validateLicenseCode_file options e pid key False w) = CheckValid r \<and> m \<le> uses r \<longrightarrow>
        fst (addLicense_file options e pid key w) = Inr (AddFailure (Classified (limit_reached m)))
        \<and> requests (snd (addLicense_file options e pid key w)) =
            requests w @ [verify_request_file pid key False]
        \<and> store (snd (addLicense_file options e pid key w)) = store w
        \<and> files (snd (addLicense_file options e pid key w)) = files w)"
  using assms
  by (simp add: addLicense_def addLicense_file_def validateLicenseCode_eq
      validateLicenseCode_file_eq limit_reached_def)


lemma Date_now_eq: "Date_now e w = (clock e (ticks w), w\<lparr>ticks := Suc (ticks w)\<rparr>)"
  by (simp add: Date_now_def)

lemma addLicense_increment_maxUses [simp]:
  "addLicense_increment (options\<lparr>maxUses := x\<rparr>) e pid key w =
   addLicense_increment options e pid key w"
  by (simp add: addLicense_increment_def validateLicenseCode_eq)

lemma addLicense_increment_file_maxUses [simp]:
  "addLicense_increment_file (options\<lparr>maxUses := x\<rparr>) e pid key w =
   addLicense_increment_file options e pid key w"
  by (simp add: addLicense_increment_file_def validateLicenseCode_file_eq
      cong: CheckResult.case_cong)

lemma requests_addLicense_increment:
  "requests (snd (addLicense_increment options e pid key w)) =
   requests w @ [verify_request options pid key True]"
  by (simp add: addLicense_increment_eq validateLicenseCode_eq split: CheckResult.splits)

lemma writeFileSync_fields:
  "writeFileSync e p c w = Inr w' \<Longrightarrow>
   store w' = store w \<and> requests w' = requests w \<and> ticks w' = ticks w \<and> draws w' = draws w
   \<and> files w' = (files w)(p \<mapsto> c)"
  by (auto simp: writeFileSync_def split: if_splits)

lemma requests_addLicense_increment_file:
  "requests (snd (addLicense_increment_file options e pid key w)) =
   requests w @ [verify_request_file pid key True]"
  by (auto simp: addLicense_increment_file_def validateLicenseCode_file_eq Date_now_eq Let_def
      dest: writeFileSync_fields split: CheckResult.splits sum.splits)

lemma addLicense_increment_result:
  "fst (addLicense_increment options e pid key w) =
     (case fst (validateLicenseCode options e pid key True w) of
        CheckValid r \<Rightarrow> AddSuccess r
      | CheckInvalid err \<Rightarrow> AddFailure (Classified err)
      | CheckUnable ex \<Rightarrow> AddFailure (Thrown ex))"
  by (simp add: addLicense_increment_eq split: CheckResult.splits)

lemma addLicense_increment_file_result:
  "fst (addLicense_increment_file options e pid key w) =
     (case fst (validateLicenseCode_file options e pid key True w) of
        CheckValid r \<Rightarrow>
          (case aes_256_cbc_encrypt e (bytes_of_string (secret e pid))
                  (randomBytes16 e (draws w)) (bytes_of_string key) of
             Inl ex \<Rightarrow> Inl ex
           | Inr ct \<Rightarrow>
               if can_write e (license_file options e w) then Inr (AddSuccess r)
               else Inl (WriteFailed (license_file options e w)))
      | CheckInvalid err \<Rightarrow> Inr (AddFailure (Classified err))
      | CheckUnable ex \<Rightarrow> Inr (AddFailure (Thrown ex)))"
  by (simp add: addLicense_increment_file_def validateLicenseCode_file_eq Date_now_eq Let_def
      writeFileSync_def license_file_def get_string_def
      split: CheckResult.splits sum.splits)

lemma increment_world_Some:
  "maxUses options = Some m \<Longrightarrow>
   increment_world options e pid key w = snd (validateLicenseCode options e pid key False w)"
  "maxUses options = Some m \<Longrightarrow>
   increment_world_file options e pid key w =
     snd (validateLicenseCode_file options e pid key False w)"
  by (simp_all add: increment_world_def increment_world_file_def)

lemma precheck_world_file:
  "draws (snd (validateLicenseCode_file options e pid key False w)) = draws w"
  "license_file options e (snd (validateLicenseCode_file options e pid key False w)) =
     license_file options e w"
  by (simp_all add: validateLicenseCode_file_eq license_file_def get_string_def)

text \<open>
  C10. With \<open>maxUses\<close> configured, a pre-check that is not valid (invalid or unable
  to check) is discarded: \<open>addLicense\<close> goes on as it does without \<open>maxUses\<close>, from
  the world the pre-check left, and sends the incrementing request after the
  non-incrementing one. What the call returns is read off the incrementing verification
  alone: success with its response when it is valid, the failure with its error when it
  is invalid, the failure with the thrown value when it could not be made. In the
  file-backed variant a valid verification gives success when the key is encrypted and
  the license file written, and the error of the cipher or of the write otherwise.
\<close>

theorem addLicense_precheck_discarded:
  assumes "maxUses options = Some m"
  shows
    "(status_of (fst (validateLicenseCode options e pid key False w)) \<noteq> ValidLicense \<longrightarrow>
        addLicense options e pid key w =
          addLicense (options\<lparr>maxUses := None\<rparr>) e pid key
            (snd (validateLicenseCode options e pid key False w))
        \<and> requests (snd (addLicense options e pid key w)) =
            requests w @ [verify_request options pid key False, verify_request options pid key True]
        \<and> fst (addLicense options e pid key w) =
            (case fst (validateLicenseCode options e pid key True
                         (snd (validateLicenseCode options e pid key False w))) of
               CheckValid r \<Rightarrow> AddSuccess r
             | CheckInvalid err \<Rightarrow> AddFailure (Classified err)
             | CheckUnable ex \<Rightarrow> AddFailure (Thrown ex)))
     \<and> (status_of (fst (validateLicenseCode_file options e pid key False w)) \<noteq> ValidLicense \<longrightarrow>
        addLicense_file options e pid key w =
          addLicense_file (options\<lparr>maxUses := None\<rparr>) e pid key
            (snd (validateLicenseCode_file options e pid key False w))
        \<and> requests (snd (addLicense_file options e pid key w)) =
            requests w @ [verify_request_file pid key False, verify_request_file pid key True]
        \<and> fst (addLicense_file options e pid key w) =
            (case fst (validateLicenseCode_file options e pid key True
                         (snd (validateLicenseCode_file options e pid key False w))) of
               CheckValid r \<Rightarrow>
                 (case aes_256_cbc_encrypt e (bytes_of_string (secret e pid))
                         (randomBytes16 e (draws w)) (bytes_of_string key) of
                    Inl ex \<Rightarrow> Inl ex
                  | Inr ct \<Rightarrow>
                      if can_write e (license_file options e w) then Inr (AddSuccess r)
                      else Inl (WriteFailed (license_file options e w)))
             | CheckInvalid err \<Rightarrow> Inr (AddFailure (Classified err))
             | CheckUnable ex \<Rightarrow> Inr (AddFailure (Thrown ex))))"
proof (intro conjI impI)
  assume n: "status_of (fst (validateLicenseCode options e pid key False w)) \<noteq> ValidLicense"
  let ?w1 = "snd (validateLicenseCode options e pid key False w)"
  from n assms have a: "addLicense options e pid key w = addLicense_increment options e pid key ?w1"
    by (cases "fst (validateLicenseCode options e pid key False w)")
       (simp_all add: addLicense_def split_beta Let_def)
  from assms show "addLicense options e pid key w =
          addLicense (options\<lparr>maxUses := None\<rparr>) e pid key ?w1"
    unfolding a by (simp add: addLicense_def)
  show "requests (snd (addLicense options e pid key w)) =
          requests w @ [verify_request options pid key False, verify_request options pid key True]"
    by (simp add: a requests_addLicense_increment validateLicenseCode_eq)
  show "fst (addLicense options e pid key w) =
          (case fst (validateLicenseCode options e pid key True ?w1) of
             CheckValid r \<Rightarrow> AddSuccess r
           | CheckInvalid err \<Rightarrow> AddFailure (Classified err)
           | CheckUnable ex \<Rightarrow> AddFailure (Thrown ex))"
    unfolding a by (rule addLicense_increment_result)
next
  assume n: "status_of (fst (validateLicenseCode_file options e pid key False w)) \<noteq> ValidLicense"
  let ?w1 = "snd (validateLicenseCode_file options e pid key False w)"
  from n assms have a: "addLicense_file options e pid key w =
                          addLicense_increment_file options e pid key ?w1"
    by (cases "fst (validateLicenseCode_file options e pid key False w)")
       (simp_all add: addLicense_file_def split_beta Let_def)
  from assms show "addLicense_file options e pid key w =
          addLicense_file (options\<lparr>maxUses := None\<rparr>) e pid key ?w1"
    unfolding a by (simp add: addLicense_file_def)
  show "requests (snd (addLicense_file options e pid key w)) =
          requests w @ [verify_request_file pid key False, verify_request_file pid key True]"
    by (simp add: a requests_addLicense_increment_file validateLicenseCode_file_eq)
  show "fst (addLicense_file options e pid key w) =
          (case fst (validateLicenseCode_file options e pid key True ?w1) of
             CheckValid r \<Rightarrow>
               (case aes_256_cbc_encrypt e (bytes_of_string (secret e pid))
                       (randomBytes16 e (draws w)) (bytes_of_string key) of
                  Inl ex \<Rightarrow> Inl ex
                | Inr ct \<Rightarrow>
                    if can_write e (license_file options e w) then Inr (AddSuccess r)
                    else Inl (WriteFailed (license_file options e w)))
           | CheckInvalid err \<Rightarrow> Inr (AddFailure (Classified err))
           | CheckUnable ex \<Rightarrow> Inr (AddFailure (Thrown ex)))"
    unfolding a addLicense_increment_file_result precheck_world_file ..
qed

lemma addLicense_increment_failure:
  "status_of (fst (validateLicenseCode options e pid key True w)) \<noteq> ValidLicense \<Longrightarrow>
   store (snd (addLicense_increment options e pid key w)) = store w
   \<and> files (snd (addLicense_increment options e pid key w)) = files w
   \<and> fst (addLicense_increment options e pid key w) =
       (case fst (validateLicenseCode options e pid key True w) of
          CheckInvalid err \<Rightarrow> AddFailure (Classified err)
        | CheckUnable ex \<Rightarrow> AddFailure (Thrown ex)
        | CheckValid r \<Rightarrow> AddSuccess r)"
  by (auto simp: addLicense_increment_eq validateLicenseCode_eq split: CheckResult.splits)

lemma addLicense_increment_file_failure:
  "status_of (fst (validateLicenseCode_file options e pid key True w)) \<noteq> ValidLicense \<Longrightarrow>
   store (snd (addLicense_increment_file options e pid key w)) = store w
   \<and> files (snd (addLicense_increment_file options e pid key w)) = files w
   \<and> fst (addLicense_increment_file options e pid key w) =
       (case fst (validateLicenseCode_file options e pid key True w) of
          CheckInvalid err \<Rightarrow> Inr (AddFailure (Classified err))
        | CheckUnable ex \<Rightarrow> Inr (AddFailure (Thrown ex))
        | CheckValid r \<Rightarrow> Inr (AddSuccess r))"
  by (auto simp: addLicense_increment_file_def validateLicenseCode_file_eq
      split: CheckResult.splits)

lemma addLicense_below_limit:
  "below_limit (maxUses options) (fst (validateLicenseCode options e pid key False w)) \<Longrightarrow>
   addLicense options e pid key w =
     addLicense_increment options e pid key (increment_world options e pid key w)"
  by (cases "maxUses options")
     (auto simp: addLicense_def increment_world_def validateLicenseCode_eq
      split: CheckResult.splits)

lemma addLicense_file_below_limit:
  "below_limit (maxUses options) (fst (validateLicenseCode_file options e pid key False w)) \<Longrightarrow>
   addLicense_file options e pid key w =
     addLicense_increment_file options e pid key (increment_world_file options e pid key w)"
  by (cases "maxUses options")
     (auto simp: addLicense_file_def increment_world_file_def validateLicenseCode_file_eq
      split: CheckResult.splits)

lemma increment_world_fields [simp]:
  "store (increment_world options e pid key w) = store w"
  "files (increment_world options e pid key w) = files w"
  "store (increment_world_file options e pid key w) = store w"
  "files (increment_world_file options e pid key w) = files w"
  by (simp_all add: increment_world_def increment_world_file_def validateLicenseCode_eq
      validateLicenseCode_file_eq split: option.splits)

text \<open>
  When the pre-check (if any) lets the activation through and the incrementing
  verification is \<open>InvalidLicense\<close> or \<open>UnableToCheck\<close>, \<open>addLicense\<close> fails and
  the store is as it was before the call; the file-backed variant leaves the files as they
  were too. The failure carries the \<open>GumroadError\<close> of an invalid verification, and the
  value that the transport threw when the verification could not be made.
\<close>

lemma addLicense_failure_leaves_store:
  "(below_limit (maxUses options) (fst (validateLicenseCode options e pid key False w)) \<longrightarrow>
      (\<forall>err. fst (validateLicenseCode options e pid key True
                    (increment_world options e pid key w)) = CheckInvalid err \<longrightarrow>
         fst (addLicense options e pid key w) = AddFailure (Classified err)
         \<and> store (snd (addLicense options e pid key w)) = store w)
    \<and> (\<forall>ex. fst (validateLicenseCode options e pid key True
                    (increment_world options e pid key w)) = CheckUnable ex \<longrightarrow>
         fst (addLicense options e pid key w) = AddFailure (Thrown ex)
         \<and> store (snd (addLicense options e pid key w)) = store w)
    \<and> (\<forall>r. server e (requests (increment_world options e pid key w))
                 (verify_request options pid key True) = Inr r \<and> \<not> success r \<longrightarrow>
         fst (addLicense options e pid key w) =
           AddFailure (Classified (GumroadError ActivationError (activation_message r)))
         \<and> store (snd (addLicense options e pid key w)) = store w))
   \<and> (below_limit (maxUses options) (fst (validateLicenseCode_file options e pid key False w)) \<longrightarrow>
      (\<forall>err. fst (validateLicenseCode_file options e pid key True
                    (increment_world_file options e pid key w)) = CheckInvalid err \<longrightarrow>
         fst (addLicense_file options e pid key w) = Inr (AddFailure (Classified err))
         \<and> store (snd (addLicense_file options e pid key w)) = store w
         \<and> files (snd (addLicense_file options e pid key w)) = files w)
    \<and> (\<forall>ex. fst (validateLicenseCode_file options e pid key True
                    (increment_world_file options e pid key w)) = CheckUnable ex \<longrightarrow>
         fst (addLicense_file options e pid key w) = Inr (AddFailure (Thrown ex))
         \<and> store (snd (addLicense_file options e pid key w)) = store w
         \<and> files (snd (addLicense_file options e pid key w)) = files w)
    \<and> (\<forall>r. server e (requests (increment_world_file options e pid key w))
                 (verify_request_file pid key True) = Inr r \<and> \<not> success r \<longrightarrow>
         fst (addLicense_file options e pid key w) =
           Inr (AddFailure (Classified (GumroadError ActivationError (activation_message r))))
         \<and> store (snd (addLicense_file options e pid key w)) = store w
         \<and> files (snd (addLicense_file options e pid key w)) = files w))"
proof -
  have i: "below_limit (maxUses options) (fst (validateLicenseCode options e pid key False w)) \<Longrightarrow>
      status_of (fst (validateLicenseCode options e pid key True
                        (increment_world options e pid key w))) \<noteq> ValidLicense \<Longrightarrow>
      store (snd (addLicense options e pid key w)) = store w
      \<and> fst (addLicense options e pid key w) =
          (case fst (validateLicenseCode options e pid key True
                       (increment_world options e pid key w)) of
             CheckInvalid err \<Rightarrow> AddFailure (Classified err)
           | CheckUnable ex \<Rightarrow> AddFailure (Thrown ex)
           | CheckValid r \<Rightarrow> AddSuccess r)"
    using addLicense_increment_failure [of options e pid key "increment_world options e pid key w"]
    by (simp add: addLicense_below_limit)
  have f: "below_limit (maxUses options)
             (fst (validateLicenseCode_file options e pid key False w)) \<Longrightarrow>
      status_of (fst (validateLicenseCode_file options e pid key True
                        (increment_world_file options e pid key w))) \<noteq> ValidLicense \<Longrightarrow>
      store (snd (addLicense_file options e pid key w)) = store w
      \<and> files (snd (addLicense_file options e pid key w)) = files w
      \<and> fst (addLicense_file options e pid key w) =
          (case fst (validateLicenseCode_file options e pid key True
                       (increment_world_file options e pid key w)) of
             CheckInvalid err \<Rightarrow> Inr (AddFailure (Classified err))
           | CheckUnable ex \<Rightarrow> Inr (AddFailure (Thrown ex))
           | CheckValid r \<Rightarrow> Inr (AddSuccess r))"
    using addLicense_increment_file_failure
      [of options e pid key "increment_world_file options e pid key w"]
    by (simp add: addLicense_file_below_limit)
  have ri: "fst (validateLicenseCode options e pid key True (increment_world options e pid key w))
              = CheckInvalid (GumroadError ActivationError (activation_message r))"
    if "server e (requests (increment_world options e pid key w))
          (verify_request options pid key True) = Inr r" "\<not> success r" for r
    using that by (simp add: validateLicenseCode_eq check_result_def)
  have rf: "fst (validateLicenseCode_file options e pid key True
                   (increment_world_file options e pid key w))
              = CheckInvalid (GumroadError ActivationError (activation_message r))"
    if "server e (requests (increment_world_file options e pid key w))
          (verify_request_file pid key True) = Inr r" "\<not> success r" for r
    using that by (simp add: validateLicenseCode_file_eq check_result_def)
  show ?thesis
  proof (intro conjI impI allI)
    show "fst (addLicense options e pid key w) =
           AddFailure (Classified (GumroadError ActivationError (activation_message r)))"
      if "below_limit (maxUses options) (fst (validateLicenseCode options e pid key False w))"
        "server e (requests (increment_world options e pid key w))
                 (verify_request options pid key True) = Inr r \<and> \<not> success r" for r
      using that i ri [of r] by simp
  qed (use i f ri rf in \<open>simp_all\<close>)
qed


theorem addLicense_limit_reached_witness:
  "fst (addLicense (no_options\<lparr>maxUses := Some 3\<rparr>)
          (example_env\<lparr>server := \<lambda>h rq. Inr (accepted 3)\<rparr>) ''prod'' ''KEY''
          (fresh_world Map.empty)) = AddFailure (Classified (limit_reached 3))
   \<and> requests (snd (addLicense (no_options\<lparr>maxUses := Some 3\<rparr>)
          (example_env\<lparr>server := \<lambda>h rq. Inr (accepted 3)\<rparr>) ''prod'' ''KEY''
          (fresh_world Map.empty))) =
       [verify_request (no_options\<lparr>maxUses := Some 3\<rparr>) ''prod'' ''KEY'' False]
   \<and> fst (addLicense_file (no_options\<lparr>maxUses := Some 3\<rparr>)
          (example_env\<lparr>server := \<lambda>h rq. Inr (accepted 3)\<rparr>) ''prod'' ''KEY''
          (fresh_world Map.empty)) = Inr (AddFailure (Classified (limit_reached 3)))
   \<and> requests (snd (addLicense_file (no_options\<lparr>maxUses := Some 3\<rparr>)
          (example_env\<lparr>server := \<lambda>h rq. Inr (accepted 3)\<rparr>) ''prod'' ''KEY''
          (fresh_world Map.empty))) = [verify_request_file ''prod'' ''KEY'' False]"
  using addLicense_limit_reached
    [where options = "no_options\<lparr>maxUses := Some 3\<rparr>" and m = 3
       and e = "example_env\<lparr>server := \<lambda>h rq. Inr (accepted 3)\<rparr>" and pid = "''prod''"
       and key = "''KEY''" and w = "fresh_world Map.empty" and r = "accepted 3"]
  by (simp add: validateLicenseCode_eq validateLicenseCode_file_eq check_result_def
      accepted_def example_purchase_def no_entitlement_def fresh_world_def)

theorem addLicense_precheck_discarded_witness:
  "status_of (fst (validateLicenseCode (no_options\<lparr>maxUses := Some 3\<rparr>)
                    (example_env\<lparr>server := first_call_fails\<rparr>) ''prod'' ''KEY'' False
                    (fresh_world Map.empty))) = UnableToCheck
   \<and> requests (snd (addLicense (no_options\<lparr>maxUses := Some 3\<rparr>)
                      (example_env\<lparr>server := first_call_fails\<rparr>) ''prod'' ''KEY''
                      (fresh_world Map.empty))) =
       requests (fresh_world Map.empty) @
       [verify_request (no_options\<lparr>maxUses := Some 3\<rparr>) ''prod'' ''KEY'' False,
        verify_request (no_options\<lparr>maxUses := Some 3\<rparr>) ''prod'' ''KEY'' True]
   \<and> fst (addLicense (no_options\<lparr>maxUses := Some 3\<rparr>)
            (example_env\<lparr>server := first_call_fails\<rparr>) ''prod'' ''KEY''
            (fresh_world Map.empty)) = AddSuccess (accepted 0)
   \<and> requests (snd (addLicense_file (no_options\<lparr>maxUses := Some 3\<rparr>)
                      (example_env\<lparr>server := first_call_fails\<rparr>) ''prod'' ''KEY''
                      (fresh_world Map.empty))) =
       requests (fresh_world Map.empty) @
       [verify_request_file ''prod'' ''KEY'' False, verify_request_file ''prod'' ''KEY'' True]"
proof -
  let ?o = "no_options\<lparr>maxUses := Some 3\<rparr>"
  let ?e = "example_env\<lparr>server := first_call_fails\<rparr>"
  let ?w = "fresh_world Map.empty"
  have m: "maxUses ?o = Some 3"
    by simp
  have r: "requests ?w = []"
    by (simp add: fresh_world_def)
  have i: "status_of (fst (validateLicenseCode ?o ?e ''prod'' ''KEY'' False ?w)) = UnableToCheck"
    by (simp add: validateLicenseCode_eq check_result_def first_call_fails_def r)
  have f: "status_of (fst (validateLicenseCode_file ?o ?e ''prod'' ''KEY'' False ?w)) =
             UnableToCheck"
    by (simp add: validateLicenseCode_file_eq check_result_def first_call_fails_def r)
  have s: "fst (validateLicenseCode ?o ?e ''prod'' ''KEY'' True
                  (snd (validateLicenseCode ?o ?e ''prod'' ''KEY'' False ?w))) =
             CheckValid (accepted 0)"
    by (simp add: validateLicenseCode_eq check_result_def first_call_fails_def accepted_def
        no_entitlement_def example_purchase_def)
  note t = addLicense_precheck_discarded [OF m, of ?e "''prod''" "''KEY''" ?w]
  from i have ni: "status_of (fst (validateLicenseCode ?o ?e ''prod'' ''KEY'' False ?w)) \<noteq>
                     ValidLicense"
    by simp
  from f have nf: "status_of (fst (validateLicenseCode_file ?o ?e ''prod'' ''KEY'' False ?w)) \<noteq>
                     ValidLicense"
    by simp
  from t ni have 1: "requests (snd (addLicense ?o ?e ''prod'' ''KEY'' ?w)) =
       requests ?w @ [verify_request ?o ''prod'' ''KEY'' False,
                      verify_request ?o ''prod'' ''KEY'' True]"
    by blast
  from t ni have "fst (addLicense ?o ?e ''prod'' ''KEY'' ?w) =
      (case fst (validateLicenseCode ?o ?e ''prod'' ''KEY'' True
                   (snd (validateLicenseCode ?o ?e ''prod'' ''KEY'' False ?w))) of
         CheckValid r \<Rightarrow> AddSuccess r
       | CheckInvalid err \<Rightarrow> AddFailure (Classified err)
       | CheckUnable ex \<Rightarrow> AddFailure (Thrown ex))"
    by blast
  then have 2: "fst (addLicense ?o ?e ''prod'' ''KEY'' ?w) = AddSuccess (accepted 0)"
    by (simp only: s CheckResult.case)
  from t nf have 3: "requests (snd (addLicense_file ?o ?e ''prod'' ''KEY'' ?w)) =
       requests ?w @ [verify_request_file ''prod'' ''KEY'' False,
                      verify_request_file ''prod'' ''KEY'' True]"
    by blast
  from i 1 2 3 show ?thesis
    by blast
qed

text \<open>
  C4 does not hold of the code where the service cannot be reached. The store is left as
  it was, but the failure carries the value that the transport threw, not a classified
  error: it has no \<open>ErrorType\<close>, and \<open>ServerUnavailable\<close> is never produced. A
  rejected key gives the classified \<open>ActivationError\<close>.
\<close>

theorem unreachable_failure_not_classified:
  "addLicense no_options (example_env\<lparr>server := offline\<rparr>) ''prod'' ''KEY''
     (fresh_world (store_defaults no_options example_env ''prod'')) =
     (AddFailure (Thrown (FetchFailed ''getaddrinfo ENOTFOUND api.gumroad.com'')),
      (fresh_world (store_defaults no_options example_env ''prod''))
        \<lparr>requests := [verify_request no_options ''prod'' ''KEY'' True]\<rparr>)
   \<and> addLicense_file no_options (example_env\<lparr>server := offline\<rparr>) ''prod'' ''KEY''
       (fresh_world store_defaults_file) =
       (Inr (AddFailure (Thrown (FetchFailed ''getaddrinfo ENOTFOUND api.gumroad.com''))),
        (fresh_world store_defaults_file)
          \<lparr>requests := [verify_request_file ''prod'' ''KEY'' True]\<rparr>)
   \<and> fst (addLicense no_options (example_env\<lparr>server := \<lambda>h rq. Inr rejected\<rparr>) ''prod'' ''KEY''
            (fresh_world (store_defaults no_options example_env ''prod''))) =
       AddFailure (Classified (GumroadError ActivationError
         ''That license does not exist for the provided product.''))"
  by (simp add: addLicense_def addLicense_file_def addLicense_increment_eq
      addLicense_increment_file_def validateLicenseCode_eq validateLicenseCode_file_eq
      check_result_def offline_def no_options_def fresh_world_def relax_tls_def rejected_def
      activation_message_def verify_request_def)

section \<open>Recheck: results\<close>

lemma get_number_simps [simp]:
  "get_number (store_set p v w) q =
     (if q = p then (case v of JNumber n \<Rightarrow> Some n | _ \<Rightarrow> None) else get_number w q)"
  "get_number (store_delete p w) q = (if q = p then None else get_number w q)"
  "get_number (w\<lparr>ticks := t\<rparr>) q = get_number w q"
  "get_number (w\<lparr>requests := rs\<rparr>) q = get_number w q"
  "get_number (w\<lparr>draws := d\<rparr>) q = get_number w q"
  "get_number (w\<lparr>files := fs\<rparr>) q = get_number w q"
  "get_number (relax_tls options w) q = get_number w q"
  by (auto simp: get_number_def store_set_def store_delete_def schema_defaults_def
      split: jsval.splits option.splits)

lemma get_string_simps [simp]:
  "get_string (store_set p v w) q =
     (if q = p then (case v of JString n \<Rightarrow> Some n | _ \<Rightarrow> None) else get_string w q)"
  "get_string (store_delete p w) q = (if q = p then None else get_string w q)"
  "get_string (w\<lparr>ticks := t\<rparr>) q = get_string w q"
  "get_string (w\<lparr>requests := rs\<rparr>) q = get_string w q"
  "get_string (w\<lparr>draws := d\<rparr>) q = get_string w q"
  "get_string (w\<lparr>files := fs\<rparr>) q = get_string w q"
  "get_string (relax_tls options w) q = get_string w q"
  by (auto simp: get_string_def store_set_def store_delete_def schema_defaults_def
      split: jsval.splits option.splits)

lemma get_purchase_simps [simp]:
  "get_purchase (store_set p v w) q =
     (if q = p then (case v of JPurchase n \<Rightarrow> Some n | _ \<Rightarrow> None)
      else if q = ''license.purchase'' \<and> store w q = None then Some EmptyObject
      else get_purchase w q)"
  "get_purchase (store_delete p w) q =
     (if q = ''license.purchase'' \<and> (p = q \<or> store w q = None) then Some EmptyObject
      else if q = p then None
      else get_purchase w q)"
  "get_purchase (w\<lparr>ticks := t\<rparr>) q = get_purchase w q"
  "get_purchase (w\<lparr>requests := rs\<rparr>) q = get_purchase w q"
  "get_purchase (w\<lparr>draws := d\<rparr>) q = get_purchase w q"
  "get_purchase (w\<lparr>files := fs\<rparr>) q = get_purchase w q"
  "get_purchase (relax_tls options w) q = get_purchase w q"
  by (auto simp: get_purchase_def store_set_def store_delete_def schema_defaults_def
      split: jsval.splits option.splits)

lemma on_check_result_invalid:
  "on_check_result options e (CheckInvalid err) w =
     (Inr (LicenseStatus InvalidLicense), store_delete ''license.purchase'' w)"
  by (simp add: on_check_result_def)

lemma on_check_result_valid:
  "on_check_result options e (CheckValid r) w =
     (case purchase r of
        None \<Rightarrow> (Inl (UndefinedValue ''license.purchase''),
                 store_set ''license.lastCheckSuccess'' (JNumber (clock e (ticks w)))
                   (w\<lparr>ticks := Suc (ticks w)\<rparr>))
      | Some p \<Rightarrow>
          (Inr (LicenseValid (PurchaseObject p)),
           store_set ''license.purchase'' (JPurchase (PurchaseObject p))
             (store_set ''license.lastCheckSuccess'' (JNumber (clock e (ticks w)))
               (w\<lparr>ticks := Suc (ticks w)\<rparr>))))"
  by (simp add: on_check_result_def Date_now_eq split: option.splits)

lemma on_check_result_unable_store:
  "store (snd (on_check_result options e (CheckUnable ex) w)) = store w"
  by (simp add: on_check_result_def Date_now_eq Let_def split: option.splits)

lemma on_check_result_unable_outdated:
  "maxDaysBetweenChecks options = Some d \<Longrightarrow> d \<noteq> 0 \<Longrightarrow> get_number w ''lastCheckSuccess'' = None \<Longrightarrow>
   on_check_result options e (CheckUnable ex) w = (Inr (LicenseStatus OutdatedLicense), w)"
  by (simp add: on_check_result_def)

lemma checkCurrentLicense_eq:
  "truthy_string (get_string w ''license.key'') \<Longrightarrow>
   checkCurrentLicense options e pid w =
     on_check_result options e
       (fst (validateLicenseCode options e pid (string_value (get_string w ''license.key'')) False w))
       (snd (validateLicenseCode options e pid (string_value (get_string w ''license.key'')) False
               (stamped e w)))"
  by (simp add: checkCurrentLicense_def Date_now_eq validateLicenseCode_eq stamped_def Let_def)

lemma checkCurrentLicense_file_eq:
  "truthy_string (get_string w ''license.filePath'') \<Longrightarrow>
   files w (string_value (get_string w ''license.filePath'')) = Some ct \<Longrightarrow>
   truthy_string (get_string w ''license.key'') \<Longrightarrow>
   checkCurrentLicense_file options e pid w =
     (case decrypt_license e pid (string_value (get_string w ''license.key'')) ct of
        Inl ex \<Rightarrow> (Inl ex, w)
      | Inr k \<Rightarrow>
          on_check_result options e (fst (validateLicenseCode_file options e pid k False w))
            (snd (validateLicenseCode_file options e pid k False (stamped e w))))"
  by (simp add: checkCurrentLicense_file_def Date_now_eq validateLicenseCode_file_eq stamped_def
      existsSync_def readFileSync_def Let_def split: sum.splits)

text \<open>
  A recheck whose verification is \<open>InvalidLicense\<close> returns \<open>InvalidLicense\<close> and
  deletes \<^verbatim>\<open>license.purchase\<close>; the write of the delete fills in the default of the
  schema, so that the store holds the empty object there afterwards. In
  \<^verbatim>\<open>src/index.ts\<close> the recheck verifies the stored key; in the file-backed variant it
  verifies the key decrypted from the license file.
\<close>

lemma checkCurrentLicense_invalid_leaves_empty_object:
  "(truthy_string (get_string w ''license.key'')
    \<and> fst (validateLicenseCode options e pid (string_value (get_string w ''license.key''))
             False w) = CheckInvalid err \<longrightarrow>
      fst (checkCurrentLicense options e pid w) = Inr (LicenseStatus InvalidLicense)
      \<and> store (snd (checkCurrentLicense options e pid w)) ''license.purchase'' =
          Some (JPurchase EmptyObject))
   \<and> (truthy_string (get_string w ''license.filePath'')
    \<and> files w (string_value (get_string w ''license.filePath'')) = Some ct
    \<and> truthy_string (get_string w ''license.key'')
    \<and> decrypt_license e pid (string_value (get_string w ''license.key'')) ct = Inr k
    \<and> fst (validateLicenseCode_file options e pid k False w) = CheckInvalid err \<longrightarrow>
      fst (checkCurrentLicense_file options e pid w) = Inr (LicenseStatus InvalidLicense)
      \<and> store (snd (checkCurrentLicense_file options e pid w)) ''license.purchase'' =
          Some (JPurchase EmptyObject))"
  by (simp add: checkCurrentLicense_eq checkCurrentLicense_file_eq on_check_result_invalid
      schema_defaults_purchase)

text \<open>
  C8 does not hold of the code. A store holds the purchase of an earlier check. The
  service reports the purchase refunded: the recheck returns \<open>InvalidLicense\<close> and
  deletes the cached purchase, but the schema's default \<^verbatim>\<open>{}\<close> takes its place. The
  service then cannot be reached: the next recheck finds the truthy \<^verbatim>\<open>{}\<close> under
  \<^verbatim>\<open>license.purchase\<close> and returns \<open>ValidLicense\<close> with it.
\<close>

theorem rejected_license_valid_offline:
  "get_purchase (fresh_world six_days_store) ''license.purchase'' =
     Some (PurchaseObject example_purchase)
   \<and> fst (checkCurrentLicense no_options (example_env\<lparr>server := refunded_then_offline\<rparr>)
            ''prod'' (fresh_world six_days_store)) = Inr (LicenseStatus InvalidLicense)
   \<and> get_purchase
        (snd (checkCurrentLicense no_options (example_env\<lparr>server := refunded_then_offline\<rparr>)
                ''prod'' (fresh_world six_days_store))) ''license.purchase'' = Some EmptyObject
   \<and> fst (checkCurrentLicense no_options (example_env\<lparr>server := refunded_then_offline\<rparr>)
            ''prod''
            (snd (checkCurrentLicense no_options
                    (example_env\<lparr>server := refunded_then_offline\<rparr>)
                    ''prod'' (fresh_world six_days_store)))) = Inr (LicenseValid EmptyObject)"
proof -
  let ?e = "example_env\<lparr>server := refunded_then_offline\<rparr>"
  let ?w = "fresh_world six_days_store"
  have k: "get_string ?w ''license.key'' = Some ''KEY''"
    by (simp add: get_string_def fresh_world_def six_days_store_def)
  have p: "get_purchase ?w ''license.purchase'' = Some (PurchaseObject example_purchase)"
    by (simp add: get_purchase_def fresh_world_def six_days_store_def)
  have r: "requests ?w = []"
    by (simp add: fresh_world_def)
  have v: "fst (validateLicenseCode no_options ?e ''prod'' ''KEY'' False ?w) =
             CheckInvalid (GumroadError LicenseRefunded refund_message)"
    by (simp add: validateLicenseCode_eq r refunded_then_offline_def check_result_def
        refunded_response_def example_purchase_def no_entitlement_def)
  have c: "checkCurrentLicense no_options ?e ''prod'' ?w =
             (Inr (LicenseStatus InvalidLicense),
              store_delete ''license.purchase''
                (snd (validateLicenseCode no_options ?e ''prod'' ''KEY'' False (stamped ?e ?w))))"
    by (simp add: checkCurrentLicense_eq k v on_check_result_invalid)
  let ?w1 = "snd (checkCurrentLicense no_options ?e ''prod'' ?w)"
  have k1: "get_string ?w1 ''license.key'' = Some ''KEY''"
    by (simp add: c validateLicenseCode_eq stamped_def k)
  have p1: "get_purchase ?w1 ''license.purchase'' = Some EmptyObject"
    by (simp add: c)
  have r1: "requests ?w1 \<noteq> []"
    by (simp add: c validateLicenseCode_eq)
  have v1: "fst (validateLicenseCode no_options ?e ''prod'' ''KEY'' False ?w1) =
              CheckUnable (FetchFailed ''getaddrinfo ENOTFOUND api.gumroad.com'')"
    using r1 by (simp add: validateLicenseCode_eq refunded_then_offline_def offline_def
        check_result_def)
  have m: "maxDaysBetweenChecks no_options = None"
    by (simp add: no_options_def)
  have e1: "checkCurrentLicense no_options ?e ''prod'' ?w1 =
              on_check_result no_options ?e
                (CheckUnable (FetchFailed ''getaddrinfo ENOTFOUND api.gumroad.com''))
                (snd (validateLicenseCode no_options ?e ''prod'' ''KEY'' False (stamped ?e ?w1)))"
    by (simp add: checkCurrentLicense_eq k1 v1)
  have g1: "get_purchase
              (snd (validateLicenseCode no_options ?e ''prod'' ''KEY'' False (stamped ?e ?w1)))
              ''license.purchase'' = Some EmptyObject"
    using p1 by (simp add: validateLicenseCode_eq stamped_def)
  have "fst (checkCurrentLicense no_options ?e ''prod'' ?w1) = Inr (LicenseValid EmptyObject)"
    unfolding e1 by (simp add: on_check_result_def m cached_license_def g1)
  moreover have "fst (checkCurrentLicense no_options ?e ''prod'' ?w) =
                   Inr (LicenseStatus InvalidLicense)"
    by (simp add: c)
  ultimately show ?thesis
    using p p1 by blast
qed

text \<open>
  No operation writes the path \<^verbatim>\<open>lastCheckSuccess\<close> that the grace period reads, so
  that with \<open>maxDaysBetweenChecks\<close> set every recheck that cannot reach the service is
  \<open>OutdatedLicense\<close>.
\<close>

lemma on_check_result_unscoped:
  "store (snd (on_check_result options e result w)) ''lastCheckSuccess'' =
   store w ''lastCheckSuccess''"
  by (cases result)
     (simp_all add: on_check_result_def Date_now_eq Let_def split: option.splits)

lemma unscoped_path_never_written:
  "store (snd (addLicense options e pid key w)) ''lastCheckSuccess'' = store w ''lastCheckSuccess''"
  "store (snd (checkCurrentLicense options e pid w)) ''lastCheckSuccess'' =
     store w ''lastCheckSuccess''"
  "store (clearLicense options e pid w) ''lastCheckSuccess'' = None"
  "store (snd (addLicense_file options e pid key w)) ''lastCheckSuccess'' =
     store w ''lastCheckSuccess''"
  "store (snd (checkCurrentLicense_file options e pid w)) ''lastCheckSuccess'' =
     store w ''lastCheckSuccess''"
  "store (clearLicense_file w) ''lastCheckSuccess'' = None"
proof -
  have i: "store (snd (addLicense_increment options e pid key v)) ''lastCheckSuccess'' =
             store v ''lastCheckSuccess''" for v
    by (simp add: addLicense_increment_eq validateLicenseCode_eq split: CheckResult.splits)
  have f: "store (snd (addLicense_increment_file options e pid key v)) ''lastCheckSuccess'' =
             store v ''lastCheckSuccess''" for v
    by (auto simp: addLicense_increment_file_def validateLicenseCode_file_eq Date_now_eq Let_def
          writeFileSync_def
        split: CheckResult.splits sum.splits if_splits)
  show "store (snd (addLicense options e pid key w)) ''lastCheckSuccess'' =
          store w ''lastCheckSuccess''"
    by (simp add: addLicense_def i validateLicenseCode_eq split: option.splits CheckResult.splits)
  show "store (snd (addLicense_file options e pid key w)) ''lastCheckSuccess'' =
          store w ''lastCheckSuccess''"
    by (simp add: addLicense_file_def f validateLicenseCode_file_eq
        split: option.splits CheckResult.splits)
  show "store (snd (checkCurrentLicense options e pid w)) ''lastCheckSuccess'' =
          store w ''lastCheckSuccess''"
    by (simp add: checkCurrentLicense_def Let_def Date_now_eq validateLicenseCode_eq
        on_check_result_unscoped)
  show "store (snd (checkCurrentLicense_file options e pid w)) ''lastCheckSuccess'' =
          store w ''lastCheckSuccess''"
    by (simp add: checkCurrentLicense_file_def Let_def Date_now_eq validateLicenseCode_file_eq
        on_check_result_unscoped split: sum.splits)
  show "store (clearLicense options e pid w) ''lastCheckSuccess'' = None"
    by (simp add: clearLicense_def store_defaults_def Let_def)
  show "store (clearLicense_file w) ''lastCheckSuccess'' = None"
    by (simp add: clearLicense_file_def store_defaults_file_def)
qed

lemma unreachable_recheck_outdated:
  assumes "maxDaysBetweenChecks options = Some d" "d \<noteq> 0"
    and "store w ''lastCheckSuccess'' = None"
    and "truthy_string (get_string w ''license.key'')"
    and "fst (validateLicenseCode options e pid (string_value (get_string w ''license.key''))
                False w) = CheckUnable ex"
  shows "fst (checkCurrentLicense options e pid w) = Inr (LicenseStatus OutdatedLicense)"
  using assms
  by (simp add: checkCurrentLicense_eq on_check_result_unable_outdated get_number_def
      validateLicenseCode_eq stamped_def)

text \<open>
  C2 does not hold of the code. With \<open>maxDaysBetweenChecks = 7\<close>, a last successful
  check six days before the clock's reading and a cached purchase, a recheck that cannot
  reach the service returns \<open>OutdatedLicense\<close>, not the cached purchase: the grace
  period reads the path \<^verbatim>\<open>lastCheckSuccess\<close>, while the timestamp is stored under
  \<^verbatim>\<open>license.lastCheckSuccess\<close>.
\<close>

theorem grace_period_never_read:
  "get_number (fresh_world six_days_store) ''license.lastCheckSuccess'' =
     Some (1700000000000 - 6 * 86400000)
   \<and> get_purchase (fresh_world six_days_store) ''license.purchase'' =
       Some (PurchaseObject example_purchase)
   \<and> clock example_env 1 = 1700000000001
   \<and> checkCurrentLicense (no_options\<lparr>maxDaysBetweenChecks := Some 7\<rparr>)
        (example_env\<lparr>server := offline\<rparr>) ''prod'' (fresh_world six_days_store) =
       (Inr (LicenseStatus OutdatedLicense),
        (stamped example_env (fresh_world six_days_store))
          \<lparr>requests := [verify_request no_options ''prod'' ''KEY'' False]\<rparr>)"
  by (simp add: checkCurrentLicense_eq fresh_world_def six_days_store_def get_string_def
      get_purchase_def get_number_def validateLicenseCode_eq check_result_def offline_def
      on_check_result_def example_env_def stamped_def store_set_def relax_tls_def no_options_def
      verify_request_def)

section \<open>The order of the timestamps\<close>

lemma addLicense_increment_success:
  "fst (addLicense_increment options e pid key w) = AddSuccess r \<Longrightarrow>
   get_number (snd (addLicense_increment options e pid key w)) ''license.lastCheckAttempt'' =
     Some (clock e (ticks w))
   \<and> get_number (snd (addLicense_increment options e pid key w)) ''license.lastCheckSuccess'' =
     Some (clock e (Suc (ticks w)))"
  by (auto simp: addLicense_increment_eq validateLicenseCode_eq split: CheckResult.splits)

lemma addLicense_increment_file_success:
  "fst (addLicense_increment_file options e pid key w) = Inr (AddSuccess r) \<Longrightarrow>
   get_number (snd (addLicense_increment_file options e pid key w)) ''license.lastCheckAttempt'' =
     Some (clock e (ticks w))
   \<and> get_number (snd (addLicense_increment_file options e pid key w)) ''license.lastCheckSuccess'' =
     Some (clock e (Suc (ticks w)))"
  by (auto simp: addLicense_increment_file_def validateLicenseCode_file_eq Date_now_eq Let_def
        writeFileSync_def get_number_def
      split: CheckResult.splits sum.splits if_splits)

lemma addLicense_success_increment:
  "fst (addLicense options e pid key w) = AddSuccess r \<Longrightarrow>
   addLicense options e pid key w =
     addLicense_increment options e pid key (increment_world options e pid key w)"
  by (cases "maxUses options")
     (auto simp: addLicense_def increment_world_def validateLicenseCode_eq
      split: CheckResult.splits if_splits)

lemma addLicense_file_success_increment:
  "fst (addLicense_file options e pid key w) = Inr (AddSuccess r) \<Longrightarrow>
   addLicense_file options e pid key w =
     addLicense_increment_file options e pid key (increment_world_file options e pid key w)"
  by (cases "maxUses options")
     (auto simp: addLicense_file_def increment_world_file_def validateLicenseCode_file_eq
      split: CheckResult.splits if_splits)

lemma mono_clock_Suc: "mono (clock e) \<Longrightarrow> clock e n \<le> clock e (Suc n)"
  by (simp add: monoD)

lemma addLicense_success_order:
  assumes "mono (clock e)" "fst (addLicense options e pid key w) = AddSuccess r"
  shows "success_not_before_attempt (snd (addLicense options e pid key w))"
  using addLicense_increment_success [of options e pid key "increment_world options e pid key w" r]
    assms addLicense_success_increment [OF assms(2)]
  by (simp add: success_not_before_attempt_def mono_clock_Suc)

lemma addLicense_file_success_order:
  assumes "mono (clock e)" "fst (addLicense_file options e pid key w) = Inr (AddSuccess r)"
  shows "success_not_before_attempt (snd (addLicense_file options e pid key w))"
  using addLicense_increment_file_success
      [of options e pid key "increment_world_file options e pid key w" r]
    assms addLicense_file_success_increment [OF assms(2)]
  by (simp add: success_not_before_attempt_def mono_clock_Suc)

lemma stamped_fields [simp]:
  "ticks (stamped e w) = Suc (ticks w)"
  "requests (stamped e w) = requests w"
  "files (stamped e w) = files w"
  "get_number (stamped e w) ''license.lastCheckAttempt'' = Some (clock e (ticks w))"
  "get_number (stamped e w) ''license.lastCheckSuccess'' = get_number w ''license.lastCheckSuccess''"
  by (simp_all add: stamped_def)

lemma on_check_result_valid_order:
  assumes "mono (clock e)" "get_number w ''license.lastCheckAttempt'' = Some (clock e n)"
    "n \<le> ticks w"
  shows "success_not_before_attempt (snd (on_check_result options e (CheckValid r) w))"
  using assms by (simp add: on_check_result_valid success_not_before_attempt_def monoD
      split: option.splits)

lemma on_check_result_not_valid_order:
  assumes "status_of result \<noteq> ValidLicense"
    "get_number w ''license.lastCheckAttempt'' = Some a"
    "case get_number w ''license.lastCheckSuccess'' of Some s \<Rightarrow> s \<le> a | None \<Rightarrow> True"
  shows "attempt_not_before_success (snd (on_check_result options e result w))"
proof (cases result)
  case (CheckValid r)
  with assms show ?thesis by simp
next
  case (CheckInvalid err)
  with assms show ?thesis
    by (simp add: on_check_result_invalid attempt_not_before_success_def split: option.splits)
next
  case (CheckUnable ex)
  have "get_number (snd (on_check_result options e (CheckUnable ex) w)) p = get_number w p" for p
    using on_check_result_unable_store [of options e ex w] by (simp add: get_number_def)
  with assms show ?thesis
    by (simp add: CheckUnable attempt_not_before_success_def split: option.splits)
qed

lemma validate_snd_numbers [simp]:
  "get_number (snd (validateLicenseCode options e pid key inc w)) p = get_number w p"
  "get_number (snd (validateLicenseCode_file options e pid key inc w)) p = get_number w p"
  "ticks (snd (validateLicenseCode options e pid key inc w)) = ticks w"
  "ticks (snd (validateLicenseCode_file options e pid key inc w)) = ticks w"
  by (simp_all add: validateLicenseCode_eq validateLicenseCode_file_eq)

lemma addLicense_failure_store:
  "fst (addLicense options e pid key w) = AddFailure err \<Longrightarrow>
   store (snd (addLicense options e pid key w)) = store w"
  by (cases "maxUses options")
     (auto simp: addLicense_def addLicense_increment_eq validateLicenseCode_eq
      split: CheckResult.splits if_splits)

lemma addLicense_increment_file_failure_store:
  "fst (addLicense_increment_file options e pid key w) = Inr (AddFailure err) \<Longrightarrow>
   store (snd (addLicense_increment_file options e pid key w)) = store w"
  by (auto simp: addLicense_increment_file_def validateLicenseCode_file_eq Date_now_eq Let_def
        writeFileSync_def
      split: CheckResult.splits sum.splits if_splits)

lemma addLicense_file_failure_store:
  "fst (addLicense_file options e pid key w) = Inr (AddFailure err) \<Longrightarrow>
   store (snd (addLicense_file options e pid key w)) = store w"
  by (cases "maxUses options")
     (auto simp: addLicense_file_def validateLicenseCode_file_eq
      dest: addLicense_increment_file_failure_store
      split: CheckResult.splits if_splits)

lemma addLicense_increment_file_throw:
  "fst (addLicense_increment_file options e pid key w) = Inl ex \<Longrightarrow>
   get_number (snd (addLicense_increment_file options e pid key w)) ''license.lastCheckAttempt'' =
     Some (clock e (ticks w))
   \<and> get_number (snd (addLicense_increment_file options e pid key w)) ''license.lastCheckSuccess'' =
     Some (clock e (Suc (ticks w)))"
  by (auto simp: addLicense_increment_file_def validateLicenseCode_file_eq Date_now_eq Let_def
        writeFileSync_def
      split: CheckResult.splits sum.splits if_splits)

lemma addLicense_file_throw_increment:
  "fst (addLicense_file options e pid key w) = Inl ex \<Longrightarrow>
   addLicense_file options e pid key w =
     addLicense_increment_file options e pid key (increment_world_file options e pid key w)"
  by (cases "maxUses options")
     (auto simp: addLicense_file_def increment_world_file_def validateLicenseCode_file_eq
      split: CheckResult.splits if_splits)

lemma addLicense_file_throw_order:
  assumes "mono (clock e)" "fst (addLicense_file options e pid key w) = Inl ex"
  shows "success_not_before_attempt (snd (addLicense_file options e pid key w))"
  using addLicense_increment_file_throw
      [of options e pid key "increment_world_file options e pid key w" ex]
    assms addLicense_file_throw_increment [OF assms(2)]
  by (simp add: success_not_before_attempt_def mono_clock_Suc)

lemma on_check_result_not_valid_numbers:
  assumes "status_of result \<noteq> ValidLicense" "p \<noteq> ''license.purchase''"
  shows "get_number (snd (on_check_result options e result w)) p = get_number w p"
proof (cases result)
  case (CheckValid r)
  with assms show ?thesis by simp
next
  case (CheckInvalid err)
  with assms(2) show ?thesis
    by (simp add: on_check_result_invalid)
next
  case (CheckUnable ex)
  with on_check_result_unable_store [of options e ex w] show ?thesis
    by (simp add: get_number_def)
qed

lemma checkCurrentLicense_not_valid_stamps:
  assumes "truthy_string (get_string w ''license.key'')"
    "status_of (fst (validateLicenseCode options e pid
       (string_value (get_string w ''license.key'')) False w)) \<noteq> ValidLicense"
  shows "get_number (snd (checkCurrentLicense options e pid w)) ''license.lastCheckAttempt'' =
           Some (clock e (ticks w))"
    and "get_number (snd (checkCurrentLicense options e pid w)) ''license.lastCheckSuccess'' =
           get_number w ''license.lastCheckSuccess''"
  using assms
  by (simp_all add: checkCurrentLicense_eq on_check_result_not_valid_numbers)

lemma checkCurrentLicense_file_not_valid_stamps:
  assumes "truthy_string (get_string w ''license.filePath'')"
    "files w (string_value (get_string w ''license.filePath'')) = Some ct"
    "truthy_string (get_string w ''license.key'')"
    "decrypt_license e pid (string_value (get_string w ''license.key'')) ct = Inr k"
    "status_of (fst (validateLicenseCode_file options e pid k False w)) \<noteq> ValidLicense"
  shows "get_number (snd (checkCurrentLicense_file options e pid w)) ''license.lastCheckAttempt'' =
           Some (clock e (ticks w))"
    and "get_number (snd (checkCurrentLicense_file options e pid w)) ''license.lastCheckSuccess'' =
           get_number w ''license.lastCheckSuccess''"
  using assms
  by (simp_all add: checkCurrentLicense_file_eq [where ct = ct] on_check_result_not_valid_numbers)

lemma checkCurrentLicense_not_set:
  "\<not> truthy_string (get_string w ''license.key'') \<Longrightarrow>
   checkCurrentLicense options e pid w = (Inr (LicenseStatus NotSet), w)"
  by (simp add: checkCurrentLicense_def)

lemma checkCurrentLicense_file_not_set:
  "\<not> (truthy_string (get_string w ''license.filePath'')
      \<and> existsSync w (string_value (get_string w ''license.filePath''))
      \<and> truthy_string (get_string w ''license.key'')) \<Longrightarrow>
   checkCurrentLicense_file options e pid w = (Inr (LicenseStatus NotSet), w)"
  by (auto simp: checkCurrentLicense_file_def)

lemma checkCurrentLicense_file_decrypt_throws:
  assumes "truthy_string (get_string w ''license.filePath'')"
    "files w (string_value (get_string w ''license.filePath'')) = Some ct"
    "truthy_string (get_string w ''license.key'')"
    "decrypt_license e pid (string_value (get_string w ''license.key'')) ct = Inl ex"
  shows "checkCurrentLicense_file options e pid w = (Inl ex, w)"
  using assms by (simp add: checkCurrentLicense_file_eq [where ct = ct])

lemma clearLicense_timestamps:
  "get_number (clearLicense options e pid w) ''license.lastCheckAttempt'' = None"
  "get_number (clearLicense options e pid w) ''license.lastCheckSuccess'' = None"
  "get_number (clearLicense_file w) ''license.lastCheckAttempt'' = None"
  "get_number (clearLicense_file w) ''license.lastCheckSuccess'' = None"
  by (simp_all add: clearLicense_def clearLicense_file_def store_defaults_def
      store_defaults_file_def get_number_def Let_def)

text \<open>
  C7, as amended. On a clock that never runs backwards, in both variants:
  \<^item> a successful \<open>addLicense\<close>, and an \<open>addLicense\<close> of the file-backed variant
    that throws (it throws only after both stamps), leave both timestamps set with
    \<open>lastCheckAttempt \<le> lastCheckSuccess\<close>; a failed \<open>addLicense\<close> leaves the store
    as it was;
  \<^item> a recheck whose verification is valid leaves both timestamps set with
    \<open>lastCheckAttempt \<le> lastCheckSuccess\<close>: the attempt is stamped first, the success
    after the verification;
  \<^item> a recheck whose verification is not valid sets \<open>lastCheckAttempt\<close> to the clock's
    reading and leaves \<open>lastCheckSuccess\<close> as it was, so that
    \<open>lastCheckAttempt \<ge> lastCheckSuccess\<close> holds after it when the stored success is
    not ahead of the clock;
  \<^item> a recheck that finds no license, and a recheck whose decryption throws, change
    nothing;
  \<^item> \<open>clearLicense\<close> leaves neither timestamp set.
\<close>

theorem timestamps_after_operations:
  assumes "mono (clock e)"
  shows
    "(\<forall>r. fst (addLicense options e pid key w) = AddSuccess r \<longrightarrow>
        success_not_before_attempt (snd (addLicense options e pid key w)))
     \<and> (\<forall>err. fst (addLicense options e pid key w) = AddFailure err \<longrightarrow>
        store (snd (addLicense options e pid key w)) = store w)
     \<and> (\<forall>r. fst (addLicense_file options e pid key w) = Inr (AddSuccess r) \<longrightarrow>
        success_not_before_attempt (snd (addLicense_file options e pid key w)))
     \<and> (\<forall>ex. fst (addLicense_file options e pid key w) = Inl ex \<longrightarrow>
        success_not_before_attempt (snd (addLicense_file options e pid key w)))
     \<and> (\<forall>err. fst (addLicense_file options e pid key w) = Inr (AddFailure err) \<longrightarrow>
        store (snd (addLicense_file options e pid key w)) = store w)
     \<and> (truthy_string (get_string w ''license.key'')
        \<and> status_of (fst (validateLicenseCode options e pid
              (string_value (get_string w ''license.key'')) False w)) = ValidLicense \<longrightarrow>
        success_not_before_attempt (snd (checkCurrentLicense options e pid w)))
     \<and> (truthy_string (get_string w ''license.filePath'')
        \<and> files w (string_value (get_string w ''license.filePath'')) = Some ct
        \<and> truthy_string (get_string w ''license.key'')
        \<and> decrypt_license e pid (string_value (get_string w ''license.key'')) ct = Inr k
        \<and> status_of (fst (validateLicenseCode_file options e pid k False w)) = ValidLicense \<longrightarrow>
        success_not_before_attempt (snd (checkCurrentLicense_file options e pid w)))
     \<and> (truthy_string (get_string w ''license.key'')
        \<and> status_of (fst (validateLicenseCode options e pid
              (string_value (get_string w ''license.key'')) False w)) \<noteq> ValidLicense \<longrightarrow>
        get_number (snd (checkCurrentLicense options e pid w)) ''license.lastCheckAttempt'' =
          Some (clock e (ticks w))
        \<and> get_number (snd (checkCurrentLicense options e pid w)) ''license.lastCheckSuccess'' =
          get_number w ''license.lastCheckSuccess''
        \<and> (success_not_in_future e w \<longrightarrow>
             attempt_not_before_success (snd (checkCurrentLicense options e pid w))))
     \<and> (truthy_string (get_string w ''license.filePath'')
        \<and> files w (string_value (get_string w ''license.filePath'')) = Some ct
        \<and> truthy_string (get_string w ''license.key'')
        \<and> decrypt_license e pid (string_value (get_string w ''license.key'')) ct = Inr k
        \<and> status_of (fst (validateLicenseCode_file options e pid k False w)) \<noteq> ValidLicense \<longrightarrow>
        get_number (snd (checkCurrentLicense_file options e pid w)) ''license.lastCheckAttempt'' =
          Some (clock e (ticks w))
        \<and> get_number (snd (checkCurrentLicense_file options e pid w)) ''license.lastCheckSuccess'' =
          get_number w ''license.lastCheckSuccess''
        \<and> (success_not_in_future e w \<longrightarrow>
             attempt_not_before_success (snd (checkCurrentLicense_file options e pid w))))
     \<and> (\<not> truthy_string (get_string w ''license.key'') \<longrightarrow>
        checkCurrentLicense options e pid w = (Inr (LicenseStatus NotSet), w))
     \<and> (\<not> (truthy_string (get_string w ''license.filePath'')
           \<and> existsSync w (string_value (get_string w ''license.filePath''))
           \<and> truthy_string (get_string w ''license.key'')) \<longrightarrow>
        checkCurrentLicense_file options e pid w = (Inr (LicenseStatus NotSet), w))
     \<and> (truthy_string (get_string w ''license.filePath'')
        \<and> files w (string_value (get_string w ''license.filePath'')) = Some ct
        \<and> truthy_string (get_string w ''license.key'')
        \<and> decrypt_license e pid (string_value (get_string w ''license.key'')) ct = Inl x \<longrightarrow>
        checkCurrentLicense_file options e pid w = (Inl x, w))
     \<and> get_number (clearLicense options e pid w) ''license.lastCheckAttempt'' = None
     \<and> get_number (clearLicense options e pid w) ''license.lastCheckSuccess'' = None
     \<and> get_number (clearLicense_file w) ''license.lastCheckAttempt'' = None
     \<and> get_number (clearLicense_file w) ''license.lastCheckSuccess'' = None"
proof -
  have a1: "\<forall>r. fst (addLicense options e pid key w) = AddSuccess r \<longrightarrow>
        success_not_before_attempt (snd (addLicense options e pid key w))"
    using assms by (blast intro: addLicense_success_order)
  have a2: "\<forall>err. fst (addLicense options e pid key w) = AddFailure err \<longrightarrow>
        store (snd (addLicense options e pid key w)) = store w"
    by (blast intro: addLicense_failure_store)
  have f1: "\<forall>r. fst (addLicense_file options e pid key w) = Inr (AddSuccess r) \<longrightarrow>
        success_not_before_attempt (snd (addLicense_file options e pid key w))"
    using assms by (blast intro: addLicense_file_success_order)
  have f2: "\<forall>ex. fst (addLicense_file options e pid key w) = Inl ex \<longrightarrow>
        success_not_before_attempt (snd (addLicense_file options e pid key w))"
    using assms by (blast intro: addLicense_file_throw_order)
  have f3: "\<forall>err. fst (addLicense_file options e pid key w) = Inr (AddFailure err) \<longrightarrow>
        store (snd (addLicense_file options e pid key w)) = store w"
    by (blast intro: addLicense_file_failure_store)
  have r1: "truthy_string (get_string w ''license.key'')
        \<and> status_of (fst (validateLicenseCode options e pid
              (string_value (get_string w ''license.key'')) False w)) = ValidLicense \<longrightarrow>
        success_not_before_attempt (snd (checkCurrentLicense options e pid w))"
  proof
    assume a: "truthy_string (get_string w ''license.key'')
        \<and> status_of (fst (validateLicenseCode options e pid
              (string_value (get_string w ''license.key'')) False w)) = ValidLicense"
    then obtain r where "fst (validateLicenseCode options e pid
              (string_value (get_string w ''license.key'')) False w) = CheckValid r"
      by (cases "fst (validateLicenseCode options e pid
              (string_value (get_string w ''license.key'')) False w)") simp_all
    with a assms show "success_not_before_attempt (snd (checkCurrentLicense options e pid w))"
      by (simp add: checkCurrentLicense_eq on_check_result_valid_order [where n = "ticks w"])
  qed
  have r2: "truthy_string (get_string w ''license.filePath'')
        \<and> files w (string_value (get_string w ''license.filePath'')) = Some ct
        \<and> truthy_string (get_string w ''license.key'')
        \<and> decrypt_license e pid (string_value (get_string w ''license.key'')) ct = Inr k
        \<and> status_of (fst (validateLicenseCode_file options e pid k False w)) = ValidLicense \<longrightarrow>
        success_not_before_attempt (snd (checkCurrentLicense_file options e pid w))"
  proof
    assume a: "truthy_string (get_string w ''license.filePath'')
        \<and> files w (string_value (get_string w ''license.filePath'')) = Some ct
        \<and> truthy_string (get_string w ''license.key'')
        \<and> decrypt_license e pid (string_value (get_string w ''license.key'')) ct = Inr k
        \<and> status_of (fst (validateLicenseCode_file options e pid k False w)) = ValidLicense"
    then obtain r where "fst (validateLicenseCode_file options e pid k False w) = CheckValid r"
      by (cases "fst (validateLicenseCode_file options e pid k False w)") simp_all
    with a assms
    show "success_not_before_attempt (snd (checkCurrentLicense_file options e pid w))"
      by (simp add: checkCurrentLicense_file_eq on_check_result_valid_order [where n = "ticks w"])
  qed
  have r3: "truthy_string (get_string w ''license.key'')
        \<and> status_of (fst (validateLicenseCode options e pid
              (string_value (get_string w ''license.key'')) False w)) \<noteq> ValidLicense \<longrightarrow>
        get_number (snd (checkCurrentLicense options e pid w)) ''license.lastCheckAttempt'' =
          Some (clock e (ticks w))
        \<and> get_number (snd (checkCurrentLicense options e pid w)) ''license.lastCheckSuccess'' =
          get_number w ''license.lastCheckSuccess''
        \<and> (success_not_in_future e w \<longrightarrow>
             attempt_not_before_success (snd (checkCurrentLicense options e pid w)))"
    using checkCurrentLicense_not_valid_stamps [of w options e pid]
    by (simp add: attempt_not_before_success_def success_not_in_future_def split: option.splits)
  have r4: "truthy_string (get_string w ''license.filePath'')
        \<and> files w (string_value (get_string w ''license.filePath'')) = Some ct
        \<and> truthy_string (get_string w ''license.key'')
        \<and> decrypt_license e pid (string_value (get_string w ''license.key'')) ct = Inr k
        \<and> status_of (fst (validateLicenseCode_file options e pid k False w)) \<noteq> ValidLicense \<longrightarrow>
        get_number (snd (checkCurrentLicense_file options e pid w)) ''license.lastCheckAttempt'' =
          Some (clock e (ticks w))
        \<and> get_number (snd (checkCurrentLicense_file options e pid w)) ''license.lastCheckSuccess'' =
          get_number w ''license.lastCheckSuccess''
        \<and> (success_not_in_future e w \<longrightarrow>
             attempt_not_before_success (snd (checkCurrentLicense_file options e pid w)))"
    using checkCurrentLicense_file_not_valid_stamps [of w ct e pid k options]
    by (simp add: attempt_not_before_success_def success_not_in_future_def split: option.splits)
  have r5: "\<not> truthy_string (get_string w ''license.key'') \<longrightarrow>
        checkCurrentLicense options e pid w = (Inr (LicenseStatus NotSet), w)"
    by (blast intro: checkCurrentLicense_not_set)
  have r6: "\<not> (truthy_string (get_string w ''license.filePath'')
           \<and> existsSync w (string_value (get_string w ''license.filePath''))
           \<and> truthy_string (get_string w ''license.key'')) \<longrightarrow>
        checkCurrentLicense_file options e pid w = (Inr (LicenseStatus NotSet), w)"
    by (blast intro: checkCurrentLicense_file_not_set)
  have r7: "truthy_string (get_string w ''license.filePath'')
        \<and> files w (string_value (get_string w ''license.filePath'')) = Some ct
        \<and> truthy_string (get_string w ''license.key'')
        \<and> decrypt_license e pid (string_value (get_string w ''license.key'')) ct = Inl x \<longrightarrow>
        checkCurrentLicense_file options e pid w = (Inl x, w)"
    by (blast intro: checkCurrentLicense_file_decrypt_throws)
  note c = clearLicense_timestamps
  show ?thesis
    by (intro conjI) (fact a1 a2 f1 f2 f3 r1 r2 r3 r4 r5 r6 r7 c)+
qed

text \<open>
  C7, as stated, fails: from a store without timestamps, \<open>addLicense\<close> on a clock that
  advances by a millisecond between its two readings leaves
  \<open>lastCheckAttempt < lastCheckSuccess\<close>, and so does a valid recheck of a store in
  which the two timestamps were equal.
\<close>

theorem success_written_after_attempt:
  "attempt_not_before_success (fresh_world (store_defaults no_options example_env ''prod''))
   \<and> \<not> attempt_not_before_success
         (snd (addLicense no_options example_env ''prod'' ''KEY''
                 (fresh_world (store_defaults no_options example_env ''prod''))))
   \<and> attempt_not_before_success (fresh_world six_days_store)
   \<and> \<not> attempt_not_before_success
         (snd (checkCurrentLicense no_options example_env ''prod'' (fresh_world six_days_store)))"
  by (simp add: attempt_not_before_success_def fresh_world_def store_defaults_def no_options_def
      get_number_def Let_def addLicense_def addLicense_increment_eq validateLicenseCode_eq
      check_result_def example_env_def accepted_def no_entitlement_def example_purchase_def
      checkCurrentLicense_eq get_string_def six_days_store_def on_check_result_valid stamped_def
      store_set_def)


theorem timestamps_after_operations_witness:
  "mono (clock example_env)
   \<and> fst (addLicense no_options example_env ''prod'' ''KEY'' (fresh_world Map.empty)) =
       AddSuccess (accepted 0)
   \<and> success_not_before_attempt
       (snd (addLicense no_options example_env ''prod'' ''KEY'' (fresh_world Map.empty)))
   \<and> success_not_in_future (example_env\<lparr>server := offline\<rparr>) (fresh_world six_days_store)
   \<and> attempt_not_before_success
       (snd (checkCurrentLicense no_options (example_env\<lparr>server := offline\<rparr>) ''prod''
               (fresh_world six_days_store)))"
proof -
  have m: "mono (clock example_env)" "mono (clock (example_env\<lparr>server := offline\<rparr>))"
    by (simp_all add: example_env_def mono_def)
  have a: "fst (addLicense no_options example_env ''prod'' ''KEY'' (fresh_world Map.empty)) =
       AddSuccess (accepted 0)"
    by (simp add: addLicense_def no_options_def addLicense_increment_eq validateLicenseCode_eq
        check_result_def example_env_def accepted_def no_entitlement_def example_purchase_def)
  have k: "truthy_string (get_string (fresh_world six_days_store) ''license.key'')"
    by (simp add: get_string_def fresh_world_def six_days_store_def)
  have u: "status_of (fst (validateLicenseCode no_options (example_env\<lparr>server := offline\<rparr>) ''prod''
              (string_value (get_string (fresh_world six_days_store) ''license.key'')) False
              (fresh_world six_days_store))) \<noteq> ValidLicense"
    by (simp add: validateLicenseCode_eq check_result_def offline_def)
  have f: "success_not_in_future (example_env\<lparr>server := offline\<rparr>) (fresh_world six_days_store)"
    by (simp add: success_not_in_future_def get_number_def fresh_world_def six_days_store_def
        example_env_def)
  note t1 = timestamps_after_operations
    [OF m(1), where options = no_options and pid = "''prod''" and key = "''KEY''"
       and w = "fresh_world Map.empty", THEN conjunct1]
  from a t1
  have 1: "success_not_before_attempt
       (snd (addLicense no_options example_env ''prod'' ''KEY'' (fresh_world Map.empty)))"
    by blast
  note t2 = timestamps_after_operations
    [OF m(2), where options = no_options and pid = "''prod''"
       and w = "fresh_world six_days_store",
     THEN conjunct2, THEN conjunct2, THEN conjunct2, THEN conjunct2, THEN conjunct2,
     THEN conjunct2, THEN conjunct2, THEN conjunct1]
  from k u f t2
  have 2: "attempt_not_before_success
       (snd (checkCurrentLicense no_options (example_env\<lparr>server := offline\<rparr>) ''prod''
               (fresh_world six_days_store)))"
    by blast
  from m(1) a 1 f 2 show ?thesis by blast
qed

section \<open>The encryption of the license file: results\<close>

lemma string_of_bytes_of_string [simp]: "string_of_bytes (bytes_of_string s) = s"
proof -
  have "char_of (unat (of_nat (of_char c) :: byte)) = c" for c :: char
    by (simp add: unat_of_nat)
  then show ?thesis
    by (simp add: string_of_bytes_def bytes_of_string_def map_idI)
qed

lemma length_bytes_of_string [simp]: "length (bytes_of_string s) = length s"
  by (simp add: bytes_of_string_def)

lemma length_xor_bytes [simp]: "length (xor_bytes a b) = min (length a) (length b)"
  by (simp add: xor_bytes_def)

lemma xor_bytes_cancel: "length a = length b \<Longrightarrow> xor_bytes (xor_bytes a b) b = a"
proof (induction a arbitrary: b)
  case Nil
  then show ?case by (simp add: xor_bytes_def)
next
  case (Cons x a)
  then obtain y b' where "b = y # b'" by (cases b) auto
  with Cons show ?case by (simp add: xor_bytes_def xor.assoc)
qed

lemma blocks16_Nil [simp]: "blocks16 [] = []"
  by (simp add: blocks16.simps)

lemma blocks16_append:
  "length b = 16 \<Longrightarrow> blocks16 (b @ bs) = b # blocks16 bs"
  by (subst blocks16.simps) auto

lemma concat_blocks16 [simp]: "concat (blocks16 bs) = bs"
proof (induction bs rule: blocks16.induct)
  case (1 bs)
  then show ?case by (subst blocks16.simps) auto
qed

lemma blocks16_lengths:
  "length bs mod 16 = 0 \<Longrightarrow> \<forall>b \<in> set (blocks16 bs). length b = 16"
proof (induction bs rule: blocks16.induct)
  case (1 bs)
  show ?case
  proof (cases "bs = []")
    case True
    then show ?thesis by simp
  next
    case False
    then have "0 < length bs"
      by simp
    with "1.prems" have l: "16 \<le> length bs"
      by presburger
    with "1.prems" have "(length bs - 16) mod 16 = 0"
      by presburger
    then have "length (drop 16 bs) mod 16 = 0"
      by simp
    with "1.IH" False have r: "\<forall>b \<in> set (blocks16 (drop 16 bs)). length b = 16"
      by blast
    have "blocks16 bs = take 16 bs # blocks16 (drop 16 bs)"
      using False by (subst blocks16.simps) simp
    then have s: "set (blocks16 bs) = insert (take 16 bs) (set (blocks16 (drop 16 bs)))"
      by (simp only: list.set)
    from l have t: "length (take 16 bs) = 16"
      by simp
    show ?thesis
      unfolding s using r t by blast
  qed
qed

lemma blocks16_concat:
  "\<forall>b \<in> set bls. length b = 16 \<Longrightarrow> blocks16 (concat bls) = bls"
  by (induction bls) (simp_all add: blocks16_append)

lemma cbc_encrypt_blocks_lengths:
  "(\<And>b. length b = 16 \<Longrightarrow> length (E b) = 16) \<Longrightarrow> length prev = 16 \<Longrightarrow>
   \<forall>p \<in> set ps. length p = 16 \<Longrightarrow>
   \<forall>c \<in> set (cbc_encrypt_blocks E prev ps). length c = 16"
proof (induction ps arbitrary: prev)
  case Nil
  then show ?case by simp
next
  case (Cons p ps)
  then have "length (E (xor_bytes p prev)) = 16"
    by simp
  moreover from Cons.prems have "\<forall>q \<in> set ps. length q = 16"
    by simp
  ultimately have "\<forall>c \<in> set (cbc_encrypt_blocks E (E (xor_bytes p prev)) ps). length c = 16"
    using Cons.prems(1) by (intro Cons.IH)
  with \<open>length (E (xor_bytes p prev)) = 16\<close> show ?case
    unfolding cbc_encrypt_blocks.simps Let_def by (simp only: list.set) blast
qed

lemma length_cbc_encrypt_blocks [simp]:
  "length (cbc_encrypt_blocks E prev ps) = length ps"
  by (induction ps arbitrary: prev) (simp_all add: Let_def)

lemma cbc_round_trip:
  "(\<And>b. length b = 16 \<Longrightarrow> length (E b) = 16 \<and> D (E b) = b) \<Longrightarrow> length prev = 16 \<Longrightarrow>
   \<forall>p \<in> set ps. length p = 16 \<Longrightarrow>
   cbc_decrypt_blocks D prev (cbc_encrypt_blocks E prev ps) = ps"
  by (induction ps arbitrary: prev) (simp_all add: Let_def xor_bytes_cancel)

lemma length_pkcs7_pad: "length (pkcs7_pad bs) mod 16 = 0"
proof -
  have "(length bs + (16 - length bs mod 16)) mod 16 = 0"
    by presburger
  then show ?thesis by (simp add: pkcs7_pad_def Let_def)
qed

lemma pkcs7_pad_not_Nil [simp]: "pkcs7_pad bs \<noteq> []"
  by (simp add: pkcs7_pad_def Let_def)

lemma pkcs7_unpad_replicate:
  assumes "0 < n" "n \<le> 16"
  shows "pkcs7_unpad (zs @ replicate n (of_nat n)) = Inr zs"
proof -
  from assms have u: "unat (of_nat n :: byte) = n"
    by (simp add: unat_of_nat)
  from assms have l: "last (zs @ replicate n (of_nat n :: byte)) = of_nat n"
    by simp
  show ?thesis
    using assms u l unfolding pkcs7_unpad_def Let_def
    by simp
qed

lemma pkcs7_unpad_pad [simp]: "pkcs7_unpad (pkcs7_pad bs) = Inr bs"
  unfolding pkcs7_pad_def Let_def by (rule pkcs7_unpad_replicate) simp_all

lemma pkcs7_unpad_append_pad: "pkcs7_unpad (a @ pkcs7_pad bs) = Inr (a @ bs)"
  unfolding pkcs7_pad_def Let_def append_assoc [symmetric]
  by (rule pkcs7_unpad_replicate) simp_all

lemma pkcs7_pad_drop:
  assumes "16 \<le> length bs"
  shows "pkcs7_pad bs = take 16 bs @ pkcs7_pad (drop 16 bs)"
proof -
  define n where "n = 16 - length bs mod 16"
  have "(length bs - 16) mod 16 = length bs mod 16"
    by (rule le_mod_geq [symmetric]) (rule assms)
  then have "16 - length (drop 16 bs) mod 16 = n"
    unfolding n_def length_drop by (rule arg_cong)
  then have d: "pkcs7_pad (drop 16 bs) = drop 16 bs @ replicate n (of_nat n)"
    unfolding pkcs7_pad_def Let_def by (rule ssubst) (rule refl)
  have p: "pkcs7_pad bs = bs @ replicate n (of_nat n)"
    unfolding pkcs7_pad_def Let_def n_def ..
  show ?thesis
    unfolding d p by (metis append_assoc append_take_drop_id)
qed

lemma hex_value_digit: "n < 16 \<Longrightarrow> hex_value (hex_digit n) = Some n"
  by (auto simp: hex_digit_def hex_value_def Let_def)

lemma from_hex_to_hex [simp]: "from_hex (to_hex bs) = bs"
proof (induction bs)
  case Nil
  then show ?case by (simp add: to_hex_def)
next
  case (Cons b bs)
  have "unat b < 256"
    using unsigned_less [of b, where 'a = nat] by simp
  then have d: "unat b div 16 < 16" "unat b mod 16 < 16"
    by simp_all
  have "(of_nat (16 * (unat b div 16) + unat b mod 16) :: byte) = b"
    by simp
  with Cons d show ?case
    by (simp add: to_hex_def hex_value_digit)
qed

lemma to_hex_Nil_iff [simp]: "to_hex bs = [] \<longleftrightarrow> bs = []"
  by (cases bs) (simp_all add: to_hex_def)

lemma length_secret:
  assumes "platform_ok e"
  shows "length (secret e pid) = 32"
proof -
  from assms have "32 \<le> length (sha256_base64 e (pid @ machineIdSync e))"
    by (simp add: platform_ok_def)
  then show ?thesis by (simp add: secret_def)
qed

lemma length_concat_blocks:
  "\<forall>b \<in> set bls. length b = 16 \<Longrightarrow> length (concat bls) = 16 * length bls"
  by (induction bls) simp_all

lemma aes_round_trip:
  assumes "platform_ok e" "length key = 32" "length iv = 16"
  shows "\<exists>ct. aes_256_cbc_encrypt e key iv pt = Inr ct \<and> aes_256_cbc_decrypt e key iv ct = Inr pt"
proof -
  let ?E = "aes_encrypt_block e key" and ?D = "aes_decrypt_block e key"
  let ?ps = "blocks16 (pkcs7_pad pt)"
  let ?cs = "cbc_encrypt_blocks ?E iv ?ps"
  have ED: "length (?E b) = 16 \<and> ?D (?E b) = b" if "length b = 16" for b
    using assms(1,2) that by (simp add: platform_ok_def)
  have ps: "\<forall>p \<in> set ?ps. length p = 16"
    by (rule blocks16_lengths) (rule length_pkcs7_pad)
  have cs: "\<forall>c \<in> set ?cs. length c = 16"
    using ED assms(3) ps by (intro cbc_encrypt_blocks_lengths) auto
  have ne: "?ps \<noteq> []"
    by (subst blocks16.simps) simp
  have len: "length (concat ?cs) = 16 * length ?ps"
    using cs by (simp add: length_concat_blocks)
  from len ne have "length (concat ?cs) \<noteq> 0"
    by simp
  then have c0: "concat ?cs \<noteq> []"
    by (metis list.size(3))
  from len have "length (concat ?cs) mod 16 = 0"
    by simp
  note c1 = c0 this
  have "cbc_decrypt_blocks ?D iv (blocks16 (concat ?cs)) = ?ps"
    using cs ED assms(3) ps by (simp add: blocks16_concat cbc_round_trip)
  then have "aes_256_cbc_decrypt e key iv (concat ?cs) = Inr pt"
    using assms(2,3) c1 by (simp add: aes_256_cbc_decrypt_def cipher_init_def del: concat_eq_Nil_conv)
  moreover have "aes_256_cbc_encrypt e key iv pt = Inr (concat ?cs)"
    using assms(2,3) by (simp add: aes_256_cbc_encrypt_def cipher_init_def)
  ultimately show ?thesis by blast
qed

lemma decrypt_license_round_trip:
  assumes "platform_ok e" "length iv = 16"
  shows "\<exists>ct. aes_256_cbc_encrypt e (bytes_of_string (secret e pid)) iv (bytes_of_string K) = Inr ct
           \<and> decrypt_license e pid (to_hex iv) ct = Inr K"
proof -
  from aes_round_trip [OF assms(1) _ assms(2), of "bytes_of_string (secret e pid)" "bytes_of_string K"]
    assms(1)
  obtain ct where
    "aes_256_cbc_encrypt e (bytes_of_string (secret e pid)) iv (bytes_of_string K) = Inr ct"
    "aes_256_cbc_decrypt e (bytes_of_string (secret e pid)) iv ct = Inr (bytes_of_string K)"
    by (auto simp: length_secret)
  then show ?thesis
    by (auto simp: decrypt_license_def)
qed

lemma requests_on_check_result [simp]:
  "requests (snd (on_check_result options e result w)) = requests w"
  by (cases result)
     (simp_all add: on_check_result_def Date_now_eq Let_def split: option.splits)

lemma addLicense_increment_file_valid:
  assumes "fst (validateLicenseCode_file options e pid K True w) = CheckValid r"
    and "aes_256_cbc_encrypt e (bytes_of_string (secret e pid)) (randomBytes16 e (draws w))
           (bytes_of_string K) = Inr ct"
  shows "can_write e (license_file options e w) \<Longrightarrow>
           fst (addLicense_increment_file options e pid K w) = Inr (AddSuccess r)
           \<and> get_string (snd (addLicense_increment_file options e pid K w)) ''license.key'' =
               Some (to_hex (randomBytes16 e (draws w)))
           \<and> get_string (snd (addLicense_increment_file options e pid K w)) ''license.filePath'' =
               Some (license_file options e w)
           \<and> files (snd (addLicense_increment_file options e pid K w)) (license_file options e w) =
               Some ct"
    and "\<not> can_write e (license_file options e w) \<Longrightarrow>
           fst (addLicense_increment_file options e pid K w) =
             Inl (WriteFailed (license_file options e w))
           \<and> get_string (snd (addLicense_increment_file options e pid K w)) ''license.key'' = Some K
           \<and> files (snd (addLicense_increment_file options e pid K w)) = files w"
  using assms
  by (simp_all add: addLicense_increment_file_def validateLicenseCode_file_eq Date_now_eq Let_def
      writeFileSync_def license_file_def)

lemma addLicense_increment_file_success_write:
  assumes "fst (validateLicenseCode_file options e pid K True w) = CheckValid r"
    and "aes_256_cbc_encrypt e (bytes_of_string (secret e pid)) (randomBytes16 e (draws w))
           (bytes_of_string K) = Inr ct"
    and "fst (addLicense_increment_file options e pid K w) = Inr (AddSuccess r')"
  shows "can_write e (license_file options e w)"
  using addLicense_increment_file_valid(2) [OF assms(1,2)] assms(3)
  by (cases "can_write e (license_file options e w)") simp_all

lemma addLicense_increment_file_success_valid:
  "fst (addLicense_increment_file options e pid K w) = Inr (AddSuccess r) \<Longrightarrow>
   fst (validateLicenseCode_file options e pid K True w) = CheckValid r"
  by (auto simp: addLicense_increment_file_def validateLicenseCode_file_eq Date_now_eq Let_def
      split: CheckResult.splits sum.splits)

lemma platform_ok_iv: "platform_ok e \<Longrightarrow> length (randomBytes16 e n) = 16"
  by (simp add: platform_ok_def)

lemma platform_ok_join: "platform_ok e \<Longrightarrow> license_file options e w \<noteq> []"
  by (simp add: platform_ok_def license_file_def)

lemma stored_license_decrypts:
  assumes ok: "platform_ok e"
    and s: "fst (addLicense_increment_file options e pid K w) = Inr (AddSuccess r)"
  shows "\<exists>fp ct ivs.
           get_string (snd (addLicense_increment_file options e pid K w)) ''license.filePath'' = Some fp
           \<and> fp \<noteq> []
           \<and> files (snd (addLicense_increment_file options e pid K w)) fp = Some ct
           \<and> get_string (snd (addLicense_increment_file options e pid K w)) ''license.key'' = Some ivs
           \<and> ivs \<noteq> []
           \<and> decrypt_license e pid ivs ct = Inr K"
proof -
  let ?iv = "randomBytes16 e (draws w)"
  have iv: "length ?iv = 16"
    using ok by (rule platform_ok_iv)
  from decrypt_license_round_trip [OF ok iv, of pid K] obtain ct where
    ct: "aes_256_cbc_encrypt e (bytes_of_string (secret e pid)) ?iv (bytes_of_string K) = Inr ct"
      "decrypt_license e pid (to_hex ?iv) ct = Inr K"
    by blast
  note v = addLicense_increment_file_success_valid [OF s]
  have cw: "can_write e (license_file options e w)"
    using v ct(1) s by (rule addLicense_increment_file_success_write)
  from iv have "?iv \<noteq> []"
    by auto
  with addLicense_increment_file_valid(1) [OF v ct(1) cw] ct(2) platform_ok_join [OF ok]
  show ?thesis
    by auto
qed

lemma wrong_iv_undetected:
  assumes ok: "platform_ok e" and k: "length key = 32"
    and iv: "length iv = 16" and iv': "length iv' = 16"
    and pt: "16 \<le> length pt"
  shows "\<exists>ct. aes_256_cbc_encrypt e key iv pt = Inr ct
           \<and> aes_256_cbc_decrypt e key iv' ct =
               Inr (xor_bytes (xor_bytes (take 16 pt) iv) iv' @ drop 16 pt)"
proof -
  let ?E = "aes_encrypt_block e key" and ?D = "aes_decrypt_block e key"
  let ?b = "take 16 pt"
  let ?bs = "blocks16 (pkcs7_pad (drop 16 pt))"
  let ?c = "?E (xor_bytes ?b iv)"
  let ?cs = "cbc_encrypt_blocks ?E ?c ?bs"
  have ED: "length (?E b) = 16 \<and> ?D (?E b) = b" if "length b = 16" for b
    using ok k that by (simp add: platform_ok_def)
  from pt have b: "length ?b = 16"
    by simp
  with iv have x: "length (xor_bytes ?b iv) = 16"
    by simp
  with ED have c: "length ?c = 16" "?D ?c = xor_bytes ?b iv"
    by simp_all
  have bs: "\<forall>p \<in> set ?bs. length p = 16"
    by (rule blocks16_lengths) (rule length_pkcs7_pad)
  have cs: "\<forall>q \<in> set ?cs. length q = 16"
    using ED c(1) bs by (intro cbc_encrypt_blocks_lengths) auto
  have all: "\<forall>q \<in> set (?c # ?cs). length q = 16"
    unfolding list.set using c(1) cs by blast
  have split: "blocks16 (pkcs7_pad pt) = ?b # ?bs"
    using b by (simp add: pkcs7_pad_drop [OF pt] blocks16_append)
  define ct where "ct = concat (?c # ?cs)"
  have enc: "aes_256_cbc_encrypt e key iv pt = Inr ct"
    using k iv by (simp add: aes_256_cbc_encrypt_def cipher_init_def split Let_def ct_def)
  have len: "length ct = 16 * length (?c # ?cs)"
    unfolding ct_def using all by (rule length_concat_blocks)
  then have "length ct \<noteq> 0"
    by simp
  then have ne: "ct \<noteq> []"
    by (metis list.size(3))
  from len have m: "length ct mod 16 = 0"
    by simp
  have bl: "blocks16 ct = ?c # ?cs"
    unfolding ct_def using all by (rule blocks16_concat)
  have tail: "cbc_decrypt_blocks ?D ?c ?cs = ?bs"
    using ED c(1) bs by (intro cbc_round_trip) auto
  have dec: "cbc_decrypt_blocks ?D iv' (blocks16 ct) = xor_bytes (xor_bytes ?b iv) iv' # ?bs"
    unfolding bl cbc_decrypt_blocks.simps tail c(2) ..
  have "aes_256_cbc_decrypt e key iv' ct =
          pkcs7_unpad (xor_bytes (xor_bytes ?b iv) iv' @ pkcs7_pad (drop 16 pt))"
    using k iv' ne m unfolding aes_256_cbc_decrypt_def cipher_init_def dec
    by simp
  with enc show ?thesis
    by (simp only: pkcs7_unpad_append_pad) blast
qed

lemma xor_byte_same:
  fixes x y z :: byte
  assumes "(x XOR y) XOR z = x"
  shows "y = z"
proof -
  have "z = ((x XOR y) XOR (x XOR y)) XOR z"
    by simp
  also have "\<dots> = (x XOR y) XOR ((x XOR y) XOR z)"
    by (simp only: xor.assoc)
  also have "\<dots> = (x XOR y) XOR x"
    by (simp only: assms)
  also have "\<dots> = (y XOR x) XOR x"
    by (simp only: xor.commute)
  also have "\<dots> = y XOR (x XOR x)"
    by (simp only: xor.assoc)
  also have "\<dots> = y"
    by simp
  finally show ?thesis ..
qed

lemma xor_bytes_Cons: "xor_bytes (x # a) (y # b) = (x XOR y) # xor_bytes a b"
  by (simp add: xor_bytes_def)

lemma xor_bytes_same:
  "length a = length b \<Longrightarrow> length b = length c \<Longrightarrow> xor_bytes (xor_bytes a b) c = a \<Longrightarrow> b = c"
proof (induction a arbitrary: b c)
  case Nil
  then show ?case by simp
next
  case (Cons x a)
  from Cons.prems(1) obtain y b' where b: "b = y # b'"
    by (cases b) simp_all
  from Cons.prems(2) b obtain z c' where c: "c = z # c'"
    by (cases c) simp_all
  note bc = b c
  from Cons.prems(3) have "(x XOR y) XOR z = x \<and> xor_bytes (xor_bytes a b') c' = a"
    unfolding bc xor_bytes_Cons by (simp only: list.inject)
  then have h: "(x XOR y) XOR z = x" "xor_bytes (xor_bytes a b') c' = a"
    by blast+
  from Cons.prems(1,2) have l: "length a = length b'" "length b' = length c'"
    unfolding bc by simp_all
  from l h(2) have "b' = c'"
    by (rule Cons.IH)
  moreover from h(1) have "y = z"
    by (rule xor_byte_same)
  ultimately show ?case
    unfolding bc by (simp only:)
qed

lemma byte_of_char_of_byte: "(of_nat (of_char (char_of (unat b))) :: byte) = b"
proof -
  have "unat b < 256"
    using unsigned_less [of b, where 'a = nat] by simp
  then have "unat b mod 256 = unat b"
    by simp
  then have "of_char (char_of (unat b)) = unat b"
    by (simp only: of_char_of)
  then show ?thesis
    by simp
qed

lemma bytes_of_string_of_bytes [simp]: "bytes_of_string (string_of_bytes bs) = bs"
  unfolding string_of_bytes_def bytes_of_string_def map_map comp_def byte_of_char_of_byte
  by (rule map_ident [THEN fun_cong, unfolded id_def])

lemma bytes_of_string_append [simp]:
  "bytes_of_string (a @ b) = bytes_of_string a @ bytes_of_string b"
  by (simp add: bytes_of_string_def)

lemma bytes_of_string_drop [simp]: "bytes_of_string (drop n s) = drop n (bytes_of_string s)"
  by (simp add: bytes_of_string_def drop_map)

lemma string_of_bytes_append [simp]:
  "string_of_bytes (a @ b) = string_of_bytes a @ string_of_bytes b"
  by (simp add: string_of_bytes_def)

lemma string_of_bytes_drop [simp]: "string_of_bytes (drop n bs) = drop n (string_of_bytes bs)"
  by (simp add: string_of_bytes_def drop_map)

lemma garbled_differs:
  assumes "length iv = 16" "length iv' = 16" "16 \<le> length K" "iv \<noteq> iv'"
  shows "garbled K iv iv' \<noteq> K"
proof
  let ?b = "take 16 (bytes_of_string K)"
  let ?x = "xor_bytes (xor_bytes ?b iv) iv'"
  assume "garbled K iv iv' = K"
  then have "bytes_of_string (string_of_bytes ?x @ drop 16 K) = bytes_of_string K"
    by (simp only: garbled_def)
  then have "?x @ drop 16 (bytes_of_string K) = bytes_of_string K"
    by simp
  also have "bytes_of_string K = ?b @ drop 16 (bytes_of_string K)"
    by simp
  finally have x: "?x = ?b"
    by (simp only: same_append_eq append_same_eq)
  from assms have l: "length ?b = length iv" "length iv = length iv'"
    by simp_all
  from l x have "iv = iv'"
    by (rule xor_bytes_same)
  with assms(4) show False ..
qed

lemma wrong_iv_license:
  assumes ok: "platform_ok e" and iv: "length iv = 16" and iv': "length (from_hex ivs) = 16"
    and K: "16 \<le> length K"
  shows "\<exists>ct. aes_256_cbc_encrypt e (bytes_of_string (secret e pid)) iv (bytes_of_string K) = Inr ct
           \<and> decrypt_license e pid ivs ct = Inr (garbled K iv (from_hex ivs))"
proof -
  from K have l: "16 \<le> length (bytes_of_string K)"
    by simp
  have k: "length (bytes_of_string (secret e pid)) = 32"
    using ok by (simp add: length_secret)
  from wrong_iv_undetected [OF ok k iv iv' l]
  obtain ct where ct:
    "aes_256_cbc_encrypt e (bytes_of_string (secret e pid)) iv (bytes_of_string K) = Inr ct"
    "aes_256_cbc_decrypt e (bytes_of_string (secret e pid)) (from_hex ivs) ct =
       Inr (xor_bytes (xor_bytes (take 16 (bytes_of_string K)) iv) (from_hex ivs)
            @ drop 16 (bytes_of_string K))"
    by blast
  have "decrypt_license e pid ivs ct = Inr (garbled K iv (from_hex ivs))"
    unfolding decrypt_license_def ct(2) garbled_def by simp
  with ct(1) show ?thesis
    by blast
qed

lemma platform_ok_example: "platform_ok example_env"
proof -
  have h: "32 \<le> length (take 44 (s @ replicate 44 (CHR ''A'')))" for s :: string
    by (simp add: min_def)
  have c: "length (xor_bytes b (take 16 k)) = 16
           \<and> xor_bytes (xor_bytes b (take 16 k)) (take 16 k) = b"
    if "length k = 32 \<and> length b = 16" for k b :: "byte list"
    using that by (simp add: xor_bytes_cancel)
  show ?thesis
    unfolding platform_ok_def example_env_def env.simps
    using h c by (intro conjI allI impI) simp_all
qed

lemma platform_ok_update [simp]:
  "platform_ok (e\<lparr>server := s\<rparr>) = platform_ok e"
  "platform_ok (e\<lparr>can_write := c\<rparr>) = platform_ok e"
  by (simp_all add: platform_ok_def)

lemma decrypt_license_update [simp]:
  "decrypt_license (e\<lparr>server := s\<rparr>) = decrypt_license e"
  by (intro ext)
     (simp add: decrypt_license_def aes_256_cbc_decrypt_def secret_def
      cong: option.case_cong sum.case_cong)

lemma addLicense_file_no_maxUses:
  "maxUses options = None \<Longrightarrow>
   addLicense_file options e pid K w = addLicense_increment_file options e pid K w"
  by (simp add: addLicense_file_def)

text \<open>
  C6. Round trip. On a platform as above, for every license key \<open>K\<close> (empty or not):
  decrypting, with the key derived from the same product id and machine id and with the
  hexadecimal form of the initialisation vector, the text that encryption produced for
  \<open>K\<close> returns \<open>K\<close>; and after a successful \<open>addLicense\<close> of \<open>K\<close>, the store
  and the license file hold a path, a ciphertext and a vector that decrypt to \<open>K\<close>, so
  that the request of the following \<open>checkCurrentLicense\<close> carries \<open>K\<close> itself.
\<close>

theorem license_key_round_trip:
  assumes "platform_ok e"
  shows
    "(length iv = 16 \<longrightarrow>
        (\<exists>ct. aes_256_cbc_encrypt e (bytes_of_string (secret e pid)) iv (bytes_of_string K) = Inr ct
           \<and> decrypt_license e pid (to_hex iv) ct = Inr K))
     \<and> (fst (addLicense_file options e pid K w) = Inr (AddSuccess r) \<longrightarrow>
        (\<exists>fp ct ivs.
           get_string (snd (addLicense_file options e pid K w)) ''license.filePath'' = Some fp
           \<and> fp \<noteq> []
           \<and> files (snd (addLicense_file options e pid K w)) fp = Some ct
           \<and> get_string (snd (addLicense_file options e pid K w)) ''license.key'' = Some ivs
           \<and> ivs \<noteq> []
           \<and> decrypt_license e pid ivs ct = Inr K)
        \<and> requests (snd (checkCurrentLicense_file options e pid
                            (snd (addLicense_file options e pid K w)))) =
            requests (snd (addLicense_file options e pid K w)) @ [verify_request_file pid K False])"
proof (intro conjI impI)
  assume "length iv = 16"
  with assms show "\<exists>ct. aes_256_cbc_encrypt e (bytes_of_string (secret e pid)) iv
                          (bytes_of_string K) = Inr ct
                     \<and> decrypt_license e pid (to_hex iv) ct = Inr K"
    by (rule decrypt_license_round_trip)
next
  let ?w = "snd (addLicense_file options e pid K w)"
  assume s: "fst (addLicense_file options e pid K w) = Inr (AddSuccess r)"
  note eq = addLicense_file_success_increment [OF s]
  from s have "fst (addLicense_increment_file options e pid K
                      (increment_world_file options e pid K w)) = Inr (AddSuccess r)"
    by (simp only: eq)
  from stored_license_decrypts [OF assms this]
  show d: "\<exists>fp ct ivs.
           get_string ?w ''license.filePath'' = Some fp \<and> fp \<noteq> []
           \<and> files ?w fp = Some ct
           \<and> get_string ?w ''license.key'' = Some ivs \<and> ivs \<noteq> []
           \<and> decrypt_license e pid ivs ct = Inr K"
    by (simp only: eq)
  then obtain fp ct ivs where
    "get_string ?w ''license.filePath'' = Some fp" "fp \<noteq> []" "files ?w fp = Some ct"
    "get_string ?w ''license.key'' = Some ivs" "ivs \<noteq> []" "decrypt_license e pid ivs ct = Inr K"
    by blast
  then show "requests (snd (checkCurrentLicense_file options e pid ?w)) =
               requests ?w @ [verify_request_file pid K False]"
    by (simp add: checkCurrentLicense_file_eq [where ct = ct] validateLicenseCode_file_eq)
qed

theorem license_key_round_trip_witness:
  "platform_ok example_env
   \<and> fst (addLicense_file no_options example_env ''prod'' ''ABC-123''
            (fresh_world store_defaults_file)) = Inr (AddSuccess (accepted 0))
   \<and> requests (snd (checkCurrentLicense_file no_options example_env ''prod''
                      (snd (addLicense_file no_options example_env ''prod'' ''ABC-123''
                              (fresh_world store_defaults_file))))) =
       requests (snd (addLicense_file no_options example_env ''prod'' ''ABC-123''
                        (fresh_world store_defaults_file)))
       @ [verify_request_file ''prod'' ''ABC-123'' False]"
proof -
  let ?w = "fresh_world store_defaults_file"
  have iv: "length (randomBytes16 example_env (draws ?w)) = 16"
    using platform_ok_example by (rule platform_ok_iv)
  from decrypt_license_round_trip [OF platform_ok_example iv, of "''prod''" "''ABC-123''"]
  obtain ct where ct:
    "aes_256_cbc_encrypt example_env (bytes_of_string (secret example_env ''prod''))
       (randomBytes16 example_env (draws ?w)) (bytes_of_string ''ABC-123'') = Inr ct"
    by blast
  have v: "fst (validateLicenseCode_file no_options example_env ''prod'' ''ABC-123'' True ?w) =
             CheckValid (accepted 0)"
    by (simp add: validateLicenseCode_file_eq check_result_def example_env_def accepted_def
        no_entitlement_def example_purchase_def)
  have cw: "can_write example_env (license_file no_options example_env ?w)"
    by (simp add: example_env_def)
  have m: "maxUses no_options = None"
    by (simp add: no_options_def)
  from addLicense_increment_file_valid(1) [OF v ct cw]
  have s: "fst (addLicense_file no_options example_env ''prod'' ''ABC-123'' ?w) =
             Inr (AddSuccess (accepted 0))"
    by (simp only: addLicense_file_no_maxUses [OF m])
  with license_key_round_trip [OF platform_ok_example, of _ "''prod''" "''ABC-123''" no_options ?w
      "accepted 0"] platform_ok_example
  show ?thesis
    by blast
qed

text \<open>
  C5 does not hold of the code. \<open>addLicense\<close> stores the license key itself under
  \<^verbatim>\<open>license.key\<close> before it encrypts, and replaces it by the initialisation vector
  only after the license file is written. When the file cannot be written, the call
  throws and the store keeps the plaintext key.
\<close>

theorem plaintext_key_left_in_store:
  "fst (addLicense_file no_options (example_env\<lparr>can_write := \<lambda>p. False\<rparr>) ''prod'' ''ABC-123''
          (fresh_world store_defaults_file)) = Inl (WriteFailed ''/licenses/license.key'')
   \<and> get_string
        (snd (addLicense_file no_options (example_env\<lparr>can_write := \<lambda>p. False\<rparr>) ''prod''
                ''ABC-123'' (fresh_world store_defaults_file))) ''license.key'' = Some ''ABC-123''"
proof -
  let ?w = "fresh_world store_defaults_file"
  let ?e = "example_env\<lparr>can_write := \<lambda>p. False\<rparr>"
  have ok: "platform_ok ?e"
    using platform_ok_example by simp
  have iv: "length (randomBytes16 ?e (draws ?w)) = 16"
    using ok by (rule platform_ok_iv)
  from decrypt_license_round_trip [OF ok iv, of "''prod''" "''ABC-123''"]
  obtain ct where ct:
    "aes_256_cbc_encrypt ?e (bytes_of_string (secret ?e ''prod''))
       (randomBytes16 ?e (draws ?w)) (bytes_of_string ''ABC-123'') = Inr ct"
    by blast
  have v: "fst (validateLicenseCode_file no_options ?e ''prod'' ''ABC-123'' True ?w) =
             CheckValid (accepted 0)"
    by (simp add: validateLicenseCode_file_eq check_result_def example_env_def accepted_def
        no_entitlement_def example_purchase_def)
  have cw: "\<not> can_write ?e (license_file no_options ?e ?w)"
    by simp
  have lf: "license_file no_options ?e ?w = ''/licenses/license.key''"
    by (simp add: license_file_def example_env_def no_options_def get_string_def fresh_world_def
        store_defaults_file_def string_or_undefined_def)
  have m: "maxUses no_options = None"
    by (simp add: no_options_def)
  from addLicense_increment_file_valid(2) [OF v ct cw]
  show ?thesis
    by (simp only: addLicense_file_no_maxUses [OF m] lf)
qed


section \<open>Failures of the decryption\<close>

lemma decrypt_license_bad_iv:
  "length (from_hex ivs) \<noteq> 16 \<Longrightarrow> decrypt_license e pid ivs ct = Inl InvalidIV"
  by (simp add: decrypt_license_def aes_256_cbc_decrypt_def cipher_init_def)

lemma decrypt_license_bad_length:
  assumes "platform_ok e" "length (from_hex ivs) = 16" "ct = [] \<or> length ct mod 16 \<noteq> 0"
  shows "decrypt_license e pid ivs ct = Inl WrongFinalBlockLength"
  using assms(2,3) length_secret [OF assms(1), of pid]
  by (auto simp: decrypt_license_def aes_256_cbc_decrypt_def cipher_init_def)

lemma checkCurrentLicense_file_throws:
  assumes "truthy_string (get_string w ''license.filePath'')"
    "files w (string_value (get_string w ''license.filePath'')) = Some ct"
    "truthy_string (get_string w ''license.key'')"
    "decrypt_license e pid (string_value (get_string w ''license.key'')) ct = Inl ex"
  shows "checkCurrentLicense_file options e pid w = (Inl ex, w)"
  using assms by (simp add: checkCurrentLicense_file_eq [where ct = ct])

text \<open>
  C9, as amended. When the decryption of the stored license throws, the recheck of the
  file-backed variant throws the same error and changes nothing: it returns no status,
  neither \<open>NotSet\<close> nor \<open>InvalidLicense\<close>. The decryption throws \<open>InvalidIV\<close> when
  the stored vector does not decode to 16 bytes, and \<open>WrongFinalBlockLength\<close> when the
  license file is empty or not a whole number of blocks. It does not throw for a wrong
  vector of 16 bytes when the key has 16 characters or more: it then returns a text that
  differs from the key. Whatever text the decryption returns is sent to the service as the
  license key.
\<close>

theorem decryption_failure_is_thrown:
  "(truthy_string (get_string w ''license.filePath'')
    \<and> files w (string_value (get_string w ''license.filePath'')) = Some ct
    \<and> truthy_string (get_string w ''license.key'')
    \<and> decrypt_license e pid (string_value (get_string w ''license.key'')) ct = Inl ex \<longrightarrow>
      checkCurrentLicense_file options e pid w = (Inl ex, w))
   \<and> (length (from_hex ivs) \<noteq> 16 \<longrightarrow> decrypt_license e pid ivs ct = Inl InvalidIV)
   \<and> (platform_ok e \<and> length (from_hex ivs) = 16 \<and> (ct = [] \<or> length ct mod 16 \<noteq> 0) \<longrightarrow>
      decrypt_license e pid ivs ct = Inl WrongFinalBlockLength)
   \<and> (platform_ok e \<and> length iv = 16 \<and> length (from_hex ivs) = 16 \<and> from_hex ivs \<noteq> iv
      \<and> 16 \<le> length K \<longrightarrow>
      (\<exists>c. aes_256_cbc_encrypt e (bytes_of_string (secret e pid)) iv (bytes_of_string K) = Inr c
         \<and> decrypt_license e pid ivs c = Inr (garbled K iv (from_hex ivs))
         \<and> garbled K iv (from_hex ivs) \<noteq> K))
   \<and> (truthy_string (get_string w ''license.filePath'')
    \<and> files w (string_value (get_string w ''license.filePath'')) = Some ct
    \<and> truthy_string (get_string w ''license.key'')
    \<and> decrypt_license e pid (string_value (get_string w ''license.key'')) ct = Inr K' \<longrightarrow>
      requests (snd (checkCurrentLicense_file options e pid w)) =
        requests w @ [verify_request_file pid K' False])"
proof (intro conjI impI)
  assume "truthy_string (get_string w ''license.filePath'')
    \<and> files w (string_value (get_string w ''license.filePath'')) = Some ct
    \<and> truthy_string (get_string w ''license.key'')
    \<and> decrypt_license e pid (string_value (get_string w ''license.key'')) ct = Inr K'"
  then show "requests (snd (checkCurrentLicense_file options e pid w)) =
        requests w @ [verify_request_file pid K' False]"
    by (simp add: checkCurrentLicense_file_eq [where ct = ct] validateLicenseCode_file_eq)
next
  assume "truthy_string (get_string w ''license.filePath'')
    \<and> files w (string_value (get_string w ''license.filePath'')) = Some ct
    \<and> truthy_string (get_string w ''license.key'')
    \<and> decrypt_license e pid (string_value (get_string w ''license.key'')) ct = Inl ex"
  then show "checkCurrentLicense_file options e pid w = (Inl ex, w)"
    by (intro checkCurrentLicense_file_throws) blast+
next
  assume "length (from_hex ivs) \<noteq> 16"
  then show "decrypt_license e pid ivs ct = Inl InvalidIV"
    by (rule decrypt_license_bad_iv)
next
  assume "platform_ok e \<and> length (from_hex ivs) = 16 \<and> (ct = [] \<or> length ct mod 16 \<noteq> 0)"
  then show "decrypt_license e pid ivs ct = Inl WrongFinalBlockLength"
    by (intro decrypt_license_bad_length) blast+
next
  assume a: "platform_ok e \<and> length iv = 16 \<and> length (from_hex ivs) = 16 \<and> from_hex ivs \<noteq> iv
      \<and> 16 \<le> length K"
  then have "garbled K iv (from_hex ivs) \<noteq> K"
    by (intro garbled_differs) auto
  moreover from a have "\<exists>c. aes_256_cbc_encrypt e (bytes_of_string (secret e pid)) iv
           (bytes_of_string K) = Inr c
         \<and> decrypt_license e pid ivs c = Inr (garbled K iv (from_hex ivs))"
    by (intro wrong_iv_license) blast+
  ultimately show "\<exists>c. aes_256_cbc_encrypt e (bytes_of_string (secret e pid)) iv
           (bytes_of_string K) = Inr c
         \<and> decrypt_license e pid ivs c = Inr (garbled K iv (from_hex ivs))
         \<and> garbled K iv (from_hex ivs) \<noteq> K"
    by blast
qed

lemma corrupt_world_fields:
  "get_string corrupt_world ''license.filePath'' = Some ''/licenses/license.key''"
  "get_string corrupt_world ''license.key'' = Some (to_hex (replicate 16 0))"
  "files corrupt_world ''/licenses/license.key'' = Some [1, 2, 3, 4, 5]"
  by (simp_all add: corrupt_world_def get_string_def fresh_world_def)

theorem decryption_failure_is_thrown_witness:
  "platform_ok example_env
   \<and> decrypt_license example_env ''prod'' (to_hex (replicate 16 0)) [1, 2, 3, 4, 5] =
       Inl WrongFinalBlockLength
   \<and> checkCurrentLicense_file no_options example_env ''prod'' corrupt_world =
       (Inl WrongFinalBlockLength, corrupt_world)"
proof -
  have l: "length (from_hex (to_hex (replicate 16 (0 :: byte)))) = 16"
    by (simp only: from_hex_to_hex length_replicate)
  have n: "to_hex (replicate 16 (0 :: byte)) \<noteq> []"
    by (simp only: to_hex_Nil_iff) simp
  from platform_ok_example l
    decryption_failure_is_thrown [of _ _ example_env "''prod''" _ _ "to_hex (replicate 16 0)"
      "[1, 2, 3, 4, 5]"]
  have d: "decrypt_license example_env ''prod'' (to_hex (replicate 16 0)) [1, 2, 3, 4, 5] =
       Inl WrongFinalBlockLength"
    by simp
  with n corrupt_world_fields
    decryption_failure_is_thrown [of corrupt_world "[1, 2, 3, 4, 5]" example_env "''prod''"
      WrongFinalBlockLength no_options]
  have "checkCurrentLicense_file no_options example_env ''prod'' corrupt_world =
       (Inl WrongFinalBlockLength, corrupt_world)"
    by simp
  with platform_ok_example d show ?thesis
    by blast
qed


lemma activated_world_fields:
  "\<exists>ct. get_string activated_world ''license.filePath'' = Some ''/licenses/license.key''
        \<and> get_string activated_world ''license.key'' = Some (to_hex (replicate 16 0))
        \<and> files activated_world ''/licenses/license.key'' = Some ct
        \<and> decrypt_license example_env ''prod'' (to_hex (replicate 16 255)) ct =
            Inr (garbled long_key (replicate 16 0) (replicate 16 255))"
proof -
  let ?w = "fresh_world store_defaults_file"
  have iv: "randomBytes16 example_env (draws ?w) = replicate 16 0"
    by (simp add: example_env_def fresh_world_def)
  have lk: "16 \<le> length long_key"
    by (simp add: long_key_def)
  from wrong_iv_license [OF platform_ok_example, of "replicate 16 0" "to_hex (replicate 16 255)"
      long_key "''prod''"] lk
  obtain ct where ct:
    "aes_256_cbc_encrypt example_env (bytes_of_string (secret example_env ''prod''))
       (replicate 16 0) (bytes_of_string long_key) = Inr ct"
    "decrypt_license example_env ''prod'' (to_hex (replicate 16 255)) ct =
       Inr (garbled long_key (replicate 16 0) (replicate 16 255))"
    by (auto simp only: from_hex_to_hex length_replicate)
  have v: "fst (validateLicenseCode_file no_options example_env ''prod'' long_key True ?w) =
             CheckValid (accepted 0)"
    by (simp add: validateLicenseCode_file_eq check_result_def example_env_def accepted_def
        no_entitlement_def example_purchase_def)
  have lf: "license_file no_options example_env ?w = ''/licenses/license.key''"
    by (simp add: license_file_def example_env_def no_options_def get_string_def fresh_world_def
        store_defaults_file_def string_or_undefined_def)
  have cw: "can_write example_env (license_file no_options example_env ?w)"
    by (simp add: example_env_def)
  have m: "maxUses no_options = None"
    by (simp add: no_options_def)
  from ct(1) have ct': "aes_256_cbc_encrypt example_env (bytes_of_string (secret example_env ''prod''))
       (randomBytes16 example_env (draws ?w)) (bytes_of_string long_key) = Inr ct"
    by (simp only: iv)
  from addLicense_increment_file_valid(1) [OF v ct' cw] ct(2)
  show ?thesis
    unfolding activated_world_def addLicense_file_no_maxUses [OF m] lf iv by blast
qed

text \<open>
  C9, as stated, fails: with another vector of 16 bytes in the store, the recheck of an
  activated license throws nothing. It sends the garbled key to the service, which
  rejects it, and returns \<open>InvalidLicense\<close>.
\<close>

theorem wrong_iv_not_detected:
  "get_string activated_world ''license.key'' = Some (to_hex (replicate 16 0))
   \<and> get_string wrong_iv_world ''license.key'' = Some (to_hex (replicate 16 255))
   \<and> fst (checkCurrentLicense_file no_options
            (example_env\<lparr>server := known_key_server long_key\<rparr>) ''prod'' wrong_iv_world) =
       Inr (LicenseStatus InvalidLicense)"
proof -
  let ?e = "example_env\<lparr>server := known_key_server long_key\<rparr>"
  let ?g = "garbled long_key (replicate 16 0) (replicate 16 255)"
  from activated_world_fields obtain ct where a:
    "get_string activated_world ''license.filePath'' = Some ''/licenses/license.key''"
    "get_string activated_world ''license.key'' = Some (to_hex (replicate 16 0))"
    "files activated_world ''/licenses/license.key'' = Some ct"
    "decrypt_license example_env ''prod'' (to_hex (replicate 16 255)) ct = Inr ?g"
    by blast
  have n: "to_hex (replicate 16 (255 :: byte)) \<noteq> []"
    by (simp only: to_hex_Nil_iff) simp
  have w: "get_string wrong_iv_world ''license.filePath'' = Some ''/licenses/license.key''"
    "get_string wrong_iv_world ''license.key'' = Some (to_hex (replicate 16 255))"
    "files wrong_iv_world ''/licenses/license.key'' = Some ct"
    using a by (simp_all add: wrong_iv_world_def)
  have "replicate 16 (0 :: byte) \<noteq> replicate 16 255"
    by (simp add: replicate_eq_replicate)
  then have g: "?g \<noteq> long_key"
    by (intro garbled_differs) (simp_all add: long_key_def)
  have d: "decrypt_license ?e ''prod'' (to_hex (replicate 16 255)) ct = Inr ?g"
    using a(4) by simp
  have "fst (validateLicenseCode_file no_options ?e ''prod'' ?g False wrong_iv_world) =
          CheckInvalid (GumroadError ActivationError (activation_message rejected))"
    using g by (simp add: validateLicenseCode_file_eq check_result_def known_key_server_def
        verify_request_file_def rejected_def)
  with w n d have "fst (checkCurrentLicense_file no_options ?e ''prod'' wrong_iv_world) =
       Inr (LicenseStatus InvalidLicense)"
    by (simp add: checkCurrentLicense_file_eq [where ct = ct] on_check_result_invalid)
  with a(2) w(2) show ?thesis
    by blast
qed

end
